theory Spec2Isabelle
  imports Complex_Main "HOL-Library.Multiset"
begin

section \<open>Python values and exceptions\<close>

text \<open>
  A parsed JSON document, as \<open>requests.Response.json()\<close> returns it: \<open>None\<close>, a bool,
  a number, a \<open>str\<close>, a \<open>list\<close> or a \<open>dict\<close> with string keys (an association list read
  with \<open>map_of\<close>). Numbers are rationals: only their order and equality are used. One \<open>char\<close>
  stands for one character of a Python \<open>str\<close>. A Python tuple is a \<open>JArr\<close> as well.
\<close>

datatype json =
    JNull
  | JBool bool
  | JNum rat
  | JStr string
  | JArr "json list"
  | JObj "(string \<times> json) list"

text \<open>
  The exceptions of the two modules. The two \<open>RuntimeError\<close>s of the harvesters carry their
  argument instead of the formatted message: \<open>BBoxNotValid bbox\<close> is
  \<open>RuntimeError(f"Resource BBOX is not valid: {bbox}")\<close> and \<open>AlreadyHarvested resource_id\<close>
  is \<open>RuntimeError(f"Resource {resource_id} has already been harvested")\<close>.
  \<open>KeyError\<close> carries the missing key, \<open>NotImplementedError\<close> its message. \<open>RequestException\<close> is whatever the HTTP
  collaborator raises (transport failure, a body that is not JSON).
\<close>

datatype error =
    KeyError json
  | TypeError
  | ValueError
  | AttributeError
  | IndexError
  | NotImplementedError string
  | BBoxNotValid json
  | AlreadyHarvested string
  | RequestException

text \<open>The remote endpoint: what \<open>http_get(url=u, ...).json()\<close> yields for each URL.\<close>

type_synonym remote = "string \<Rightarrow> error + json"

subsection \<open>Built-in operations of Python on these values\<close>

text \<open>\<open>sub in s\<close> for two strings.\<close>

fun str_contains :: "string \<Rightarrow> string \<Rightarrow> bool" where
  "str_contains sub [] = (sub = [])"
| "str_contains sub (c # cs) = (take (length sub) (c # cs) = sub \<or> str_contains sub cs)"

text \<open>\<open>s.split(c)\<close> for a one-character separator: never the empty list.\<close>

fun split_on :: "char \<Rightarrow> string \<Rightarrow> string list" where
  "split_on c [] = [[]]"
| "split_on c (x # xs) =
     (if x = c then [] # split_on c xs
      else (case split_on c xs of [] \<Rightarrow> [[x]] | y # ys \<Rightarrow> (x # y) # ys))"

definition rstrip :: "char \<Rightarrow> string \<Rightarrow> string" where
  "rstrip c s = rev (dropWhile (\<lambda>x. x = c) (rev s))"

text \<open>\<open>v[key]\<close> for a string key: only a dict can be indexed by a string.\<close>

fun getitem :: "json \<Rightarrow> string \<Rightarrow> error + json" where
  "getitem (JObj kvs) key = (case map_of kvs key of None \<Rightarrow> Inl (KeyError (JStr key)) | Some v \<Rightarrow> Inr v)"
| "getitem _ key = Inl TypeError"

text \<open>\<open>v[i]\<close> for a non-negative integer index; a dict of JSON has no integer key.\<close>

fun getindex :: "json \<Rightarrow> nat \<Rightarrow> error + json" where
  "getindex (JArr xs) i = (if i < length xs then Inr (xs ! i) else Inl IndexError)"
| "getindex (JStr s) i = (if i < length s then Inr (JStr [s ! i]) else Inl IndexError)"
| "getindex (JObj kvs) i = Inl (KeyError (JNum (of_nat i)))"
| "getindex _ i = Inl TypeError"

text \<open>\<open>len(v)\<close>.\<close>

fun py_len :: "json \<Rightarrow> error + nat" where
  "py_len (JArr xs) = Inr (length xs)"
| "py_len (JStr s) = Inr (length s)"
| "py_len (JObj kvs) = Inr (length kvs)"
| "py_len _ = Inl TypeError"

text \<open>\<open>for x in v\<close>: the items of a list, the characters of a string, the keys of a dict.\<close>

fun py_iter :: "json \<Rightarrow> error + json list" where
  "py_iter (JArr xs) = Inr xs"
| "py_iter (JStr s) = Inr (map (\<lambda>c. JStr [c]) s)"
| "py_iter (JObj kvs) = Inr (map (\<lambda>kv. JStr (fst kv)) kvs)"
| "py_iter _ = Inl TypeError"

text \<open>
  \<open>a.__add__(v)\<close> with \<open>a\<close> a string: \<open>str.__add__\<close> concatenates two strings and
  raises \<open>TypeError\<close> for a \<open>v\<close> that is no string.
\<close>

fun str_add :: "string \<Rightarrow> json \<Rightarrow> error + string" where
  "str_add a (JStr s) = Inr (a @ s)"
| "str_add a _ = Inl TypeError"

text \<open>\<open>elements.extend(temp)\<close>: only a list has \<open>extend\<close>, and it takes any iterable.\<close>

fun py_extend :: "json \<Rightarrow> json \<Rightarrow> error + json" where
  "py_extend (JArr xs) temp = (case py_iter temp of Inl e \<Rightarrow> Inl e | Inr ys \<Rightarrow> Inr (JArr (xs @ ys)))"
| "py_extend _ temp = Inl AttributeError"

text \<open>
  \<open>v.json()\<close> on a value that \<open>Response.json()\<close> has already parsed: neither \<open>dict\<close>,
  \<open>list\<close>, \<open>str\<close>, a number, a bool nor \<open>None\<close> has an attribute \<open>json\<close>.
\<close>

definition json_method :: "json \<Rightarrow> error + json" where
  "json_method v = Inl AttributeError"

subsection \<open>Sequencing of calls that may raise\<close>

text \<open>\<open>andthen m f\<close>: run \<open>m\<close>; an exception ends the computation, a value goes on to \<open>f\<close>.\<close>

definition andthen :: "error + 'a \<Rightarrow> ('a \<Rightarrow> error + 'b) \<Rightarrow> error + 'b" where
  "andthen m f = (case m of Inl e \<Rightarrow> Inl e | Inr x \<Rightarrow> f x)"

text \<open>A \<open>for\<close> loop that appends one result per item and stops at the first exception.\<close>

fun map_result :: "('a \<Rightarrow> error + 'b) \<Rightarrow> 'a list \<Rightarrow> error + 'b list" where
  "map_result f [] = Inr []"
| "map_result f (x # xs) =
     (case f x of
        Inl e \<Rightarrow> Inl e
      | Inr y \<Rightarrow> (case map_result f xs of Inl e \<Rightarrow> Inl e | Inr ys \<Rightarrow> Inr (y # ys)))"

text \<open>Truth value of a JSON value, \<open>d.get(key, None)\<close>, and \<open>s.upper()\<close> on ASCII letters.\<close>

fun py_truthy :: "json \<Rightarrow> bool" where
  "py_truthy JNull = False"
| "py_truthy (JBool b) = b"
| "py_truthy (JNum n) = (n \<noteq> 0)"
| "py_truthy (JStr s) = (s \<noteq> [])"
| "py_truthy (JArr xs) = (xs \<noteq> [])"
| "py_truthy (JObj kvs) = (kvs \<noteq> [])"

fun py_get :: "json \<Rightarrow> string \<Rightarrow> error + json" where
  "py_get (JObj kvs) key = (case map_of kvs key of None \<Rightarrow> Inr JNull | Some v \<Rightarrow> Inr v)"
| "py_get _ key = Inl AttributeError"

definition upper_char :: "char \<Rightarrow> char" where
  "upper_char c =
     (let n = (of_char c :: nat) in if 97 \<le> n \<and> n \<le> 122 then char_of (n - 32) else c)"

fun py_upper :: "json \<Rightarrow> error + string" where
  "py_upper (JStr s) = Inr (map upper_char s)"
| "py_upper _ = Inl AttributeError"

text \<open>\<open>min\<close> and \<open>max\<close> of a list of numbers: \<open>ValueError\<close> on the empty list.\<close>

fun py_min :: "rat list \<Rightarrow> error + rat" where
  "py_min [] = Inl ValueError"
| "py_min (x # xs) = Inr (fold min xs x)"

fun py_max :: "rat list \<Rightarrow> error + rat" where
  "py_max [] = Inl ValueError"
| "py_max (x # xs) = Inr (fold max xs x)"

text \<open>
  A Python \<open>set\<close> of JSON values, as the list of its members without repetition.
  \<open>keywords.update(xs)\<close> raises \<open>TypeError\<close> on an unhashable member (a list or a dict).
  The order in which Python iterates over a set is not specified: the model keeps the order
  of insertion, and what is proved of the keyword list is proved up to order. A number and
  a bool that Python considers equal are kept apart here; slicing either as a keyword raises
  \<open>TypeError\<close> all the same.
\<close>

fun hashable :: "json \<Rightarrow> bool" where
  "hashable (JArr xs) = False"
| "hashable (JObj kvs) = False"
| "hashable _ = True"

definition set_add :: "'a list \<Rightarrow> 'a \<Rightarrow> 'a list" where
  "set_add ks x = (if x \<in> set ks then ks else ks @ [x])"

definition set_add_all :: "'a list \<Rightarrow> 'a list \<Rightarrow> 'a list" where
  "set_add_all ks xs = fold (\<lambda>x acc. set_add acc x) xs ks"

definition set_update :: "json list \<Rightarrow> json list \<Rightarrow> error + json list" where
  "set_update ks xs = (if list_all hashable xs then Inr (set_add_all ks xs) else Inl TypeError)"

text \<open>\<open>keyword[:100]\<close>: a string is cut; \<open>None\<close>, a number or a bool cannot be sliced.\<close>

fun slice100 :: "json \<Rightarrow> error + json" where
  "slice100 (JStr s) = Inr (JStr (take 100 s))"
| "slice100 (JArr xs) = Inr (JArr (take 100 xs))"
| "slice100 _ = Inl TypeError"

section \<open>Collaborators that are not part of the two modules\<close>

text \<open>
  \<open>urllib.parse\<close>: the functions the modules call, taken as parameters. \<open>quote\<close> is
  \<open>quote(s, safe='')\<close>, \<open>urlencode\<close> is \<open>urlencode(d, doseq=True)\<close> on a dict of strings,
  \<open>urlunparse\<close> is also \<open>ParseResult.geturl()\<close>; \<open>urlparse\<close> may raise \<open>ValueError\<close>.
\<close>

record parse_result =
  scheme :: string
  netloc :: string
  path :: string
  params :: string
  query :: string
  fragment :: string

record urllib =
  unquote :: "string \<Rightarrow> string"
  urlparse :: "string \<Rightarrow> error + parse_result"
  urlunparse :: "parse_result \<Rightarrow> string"
  parse_qsl :: "string \<Rightarrow> (string \<times> string) list"
  urlencode :: "(string \<times> string) list \<Rightarrow> string"
  quote :: "string \<Rightarrow> string"

text \<open>
  Django's \<open>slugify\<close>, Python's \<open>str()\<close> of a value that is no string (for the f-strings),
  \<open>geonode.services.utils.decimal_encode\<close>, and \<open>geojson.loads(json.dumps(f)).coordinates\<close>
  for a feature of interest that is a point: a list of numbers, or the exception raised.
\<close>

record collaborators =
  slugify :: "string \<Rightarrow> string"
  py_str :: "json \<Rightarrow> string"
  decimal_encode :: "json \<Rightarrow> error + json"
  point_coordinates :: "json \<Rightarrow> error + rat list"

record settings =
  RESOURCE_PUBLISHING :: bool
  ADMIN_MODERATE_UPLOADS :: bool

text \<open>
  Modelled from the spec: \<open>BBOXHelper\<close> (\<open>geonode.base.bbox_utils\<close>) is not under src/.
  \<open>BBOXHelper.from_xy\<close> takes the box in the canonical order (minx, maxx, miny, maxy), and
  \<open>as_polygon\<close> is the polygon of these four bounds.
\<close>

datatype polygon = Polygon (minx: json) (maxx: json) (miny: json) (maxy: json)

text \<open>
  Modelled from the spec: \<open>BBOXHelper.from_xy([x0, x1, y0, y1]).as_polygon()\<close>, not under
  src/; the four entries are taken as minx, maxx, miny, maxy, in this order.
\<close>

fun from_xy_as_polygon :: "json \<Rightarrow> json \<Rightarrow> json \<Rightarrow> json \<Rightarrow> polygon" where
  "from_xy_as_polygon x0 x1 y0 y1 = Polygon x0 x1 y0 y1"

section \<open>sta.py: BaseSensorThingsService\<close>

definition DATASTREAMS :: string where "DATASTREAMS = ''Datastreams''"
definition FEATURES_OF_INTEREST :: string where "FEATURES_OF_INTEREST = ''FeaturesOfInterest''"
definition OBSERVED_PROPERTIES :: string where "OBSERVED_PROPERTIES = ''ObservedProperties''"
definition SENSORS :: string where "SENSORS = ''Sensors''"
definition THINGS :: string where "THINGS = ''Things''"
definition FILTER_OBSERVATION_DATASTREAM_ID_EQ :: string where
  "FILTER_OBSERVATION_DATASTREAM_ID_EQ = ''?$filter=Observations/Datastream/id eq '' @ [CHR 0x27]"
definition FILTER_DATASTREAMS_ID_EQ :: string where
  "FILTER_DATASTREAMS_ID_EQ = ''?$filter=Datastreams/id eq '' @ [CHR 0x27]"
definition SELECT_ID_NAME :: string where "SELECT_ID_NAME = ''$select=id,name''"
definition VALUE :: string where "VALUE = ''value''"
definition NAME :: string where "NAME = ''name''"
definition DESCRIPTION :: string where "DESCRIPTION = ''description''"
definition IOT_ID :: string where "IOT_ID = ''@iot.id''"
definition IOT_NEXT_LINK :: string where "IOT_NEXT_LINK = ''@iot.nextLink''"

text \<open>The fields of the client that the queries read (\<open>self.url\<close>, \<open>self.url_query_string\<close>).\<close>

record sta_client =
  client_url :: string
  url_query_string :: "string option"

text \<open>
  \<open>BaseSensorThingsService.__init__\<close>: \<open>self.url, self.url_query_string = url.split('?')\<close>
  unpacks exactly two parts and raises \<open>ValueError\<close> otherwise.
\<close>

definition BaseSensorThingsService :: "string \<Rightarrow> error + sta_client" where
  "BaseSensorThingsService u =
     (if CHR ''?'' \<in> set u then
        (case split_on CHR ''?'' u of
           [a, b] \<Rightarrow> Inr \<lparr>client_url = a, url_query_string = Some b\<rparr>
         | _ \<Rightarrow> Inl ValueError)
      else Inr \<lparr>client_url = rstrip CHR ''/'' u @ ''/'', url_query_string = None\<rparr>)"

definition get_json_data :: "remote \<Rightarrow> string \<Rightarrow> error + json" where
  "get_json_data remote u = remote u"

text \<open>
  \<open>__get_value\<close>: \<open>key in response\<close> is a key test on a dict, a membership test on a list
  and a substring test on a string; where it holds on a list or a string, \<open>response[key]\<close>
  raises \<open>TypeError\<close>. \<open>None\<close>, numbers and bools are not iterable.
\<close>

fun get_value :: "string \<Rightarrow> json \<Rightarrow> error + json" where
  "get_value key (JObj kvs) = (case map_of kvs key of None \<Rightarrow> Inr JNull | Some v \<Rightarrow> Inr v)"
| "get_value key (JArr xs) = (if JStr key \<in> set xs then Inl TypeError else Inr JNull)"
| "get_value key (JStr s) = (if str_contains key s then Inl TypeError else Inr JNull)"
| "get_value key _ = Inl TypeError"

definition get_next_link :: "json \<Rightarrow> error + json" where
  "get_next_link response = get_value IOT_NEXT_LINK response"

text \<open>
  The \<open>while nextLink is not None\<close> loop of \<open>__get_elements\<close>, statement by statement.
  \<open>__get_json_data\<close> already returns the parsed document, and the loop calls \<open>.json()\<close>
  on it once more. A \<open>nextLink\<close> that is no string is refused by the HTTP collaborator.
  The recursive calls stand after that \<open>.json()\<close>, which never returns: this is the
  termination argument.
\<close>

function get_elements_loop :: "remote \<Rightarrow> json \<Rightarrow> json \<Rightarrow> error + json" where
  "get_elements_loop remote elements nextLink =
     (if nextLink = JNull then Inr elements
      else
        (case (case nextLink of JStr u \<Rightarrow> get_json_data remote u | _ \<Rightarrow> Inl RequestException) of
           Inl e \<Rightarrow> Inl e
         | Inr data \<Rightarrow>
            (case json_method data of
               Inl e \<Rightarrow> Inl e
             | Inr response \<Rightarrow>
                 if response \<noteq> JNull then
                   (case get_next_link response of
                      Inl e \<Rightarrow> Inl e
                    | Inr nextLink' \<Rightarrow>
                       (case get_value VALUE response of
                          Inl e \<Rightarrow> Inl e
                        | Inr temp \<Rightarrow>
                           (case py_extend elements temp of
                              Inl e \<Rightarrow> Inl e
                            | Inr elements' \<Rightarrow> get_elements_loop remote elements' nextLink')))
                 else get_elements_loop remote elements nextLink)))"
  by pat_completeness auto
termination
  by (relation "{}") (simp_all add: json_method_def)

text \<open>
  \<open>__get_elements\<close>: a \<open>None\<close> response or a missing \<open>value\<close> falls off the end of the
  function, which returns \<open>None\<close>.
\<close>

definition get_elements :: "remote \<Rightarrow> string \<Rightarrow> error + json" where
  "get_elements remote u =
     (case get_json_data remote u of
        Inl e \<Rightarrow> Inl e
      | Inr response \<Rightarrow>
          if response \<noteq> JNull then
            (case get_value VALUE response of
               Inl e \<Rightarrow> Inl e
             | Inr elements \<Rightarrow>
                (case get_next_link response of
                   Inl e \<Rightarrow> Inl e
                 | Inr nextLink \<Rightarrow>
                     if elements \<noteq> JNull then get_elements_loop remote elements nextLink
                     else Inr JNull))
          else Inr JNull)"

text \<open>\<open>__get_by_identifier\<close> and \<open>getDatastream\<close>.\<close>

definition get_by_identifier :: "remote \<Rightarrow> sta_client \<Rightarrow> string \<Rightarrow> string \<Rightarrow> error + json" where
  "get_by_identifier remote c resource identifier =
     (case get_json_data remote (client_url c @ resource @ ''('' @ [CHR 0x27] @ identifier @ [CHR 0x27] @ '')'') of
        Inl e \<Rightarrow> Inl e
      | Inr data \<Rightarrow>
         (case getitem data ''error'' of
            Inl e \<Rightarrow> Inl e
          | Inr err \<Rightarrow>
              if err \<noteq> JNull
              then get_json_data remote (client_url c @ resource @ ''('' @ identifier @ '')'')
              else Inr data))"

definition getDatastream :: "remote \<Rightarrow> sta_client \<Rightarrow> string \<Rightarrow> error + json" where
  "getDatastream remote c identifier = get_by_identifier remote c DATASTREAMS identifier"


text \<open>The queries scoped to one datastream, and \<open>__get_name\<close>.\<close>

definition get_name_item :: "json \<Rightarrow> error + json" where
  "get_name_item item =
     andthen (getitem item NAME) (\<lambda>n. if n \<noteq> JNull then getitem item NAME else getitem item IOT_ID)"

definition get_name :: "json \<Rightarrow> error + json list" where
  "get_name data = andthen (py_iter data) (map_result get_name_item)"

definition getFeaturesForDatastream :: "remote \<Rightarrow> sta_client \<Rightarrow> json \<Rightarrow> error + json" where
  "getFeaturesForDatastream remote c ident =
     andthen (str_add (client_url c @ FEATURES_OF_INTEREST @ FILTER_OBSERVATION_DATASTREAM_ID_EQ) ident)
       (\<lambda>q. get_elements remote (q @ [CHR 0x27]))"

definition getFeatureOfInterestNamesForDatastream :: "remote \<Rightarrow> sta_client \<Rightarrow> json \<Rightarrow> error + json list" where
  "getFeatureOfInterestNamesForDatastream remote c ident =
     andthen (str_add (client_url c @ FEATURES_OF_INTEREST @ FILTER_OBSERVATION_DATASTREAM_ID_EQ) ident)
       (\<lambda>q. andthen (get_elements remote (q @ [CHR 0x27] @ ''&'' @ SELECT_ID_NAME)) get_name)"

definition getObservedPropertyNamesForDatastream :: "remote \<Rightarrow> sta_client \<Rightarrow> json \<Rightarrow> error + json list" where
  "getObservedPropertyNamesForDatastream remote c ident =
     andthen (str_add (client_url c @ OBSERVED_PROPERTIES @ FILTER_DATASTREAMS_ID_EQ) ident)
       (\<lambda>q. andthen (get_elements remote (q @ [CHR 0x27] @ ''&'' @ SELECT_ID_NAME)) get_name)"

definition getSensorNamesForDatastream :: "remote \<Rightarrow> sta_client \<Rightarrow> json \<Rightarrow> error + json list" where
  "getSensorNamesForDatastream remote c ident =
     andthen (str_add (client_url c @ SENSORS @ FILTER_DATASTREAMS_ID_EQ) ident)
       (\<lambda>q. andthen (get_elements remote (q @ [CHR 0x27] @ ''&'' @ SELECT_ID_NAME)) get_name)"

definition getThingNamesForDatastream :: "remote \<Rightarrow> sta_client \<Rightarrow> json \<Rightarrow> error + json list" where
  "getThingNamesForDatastream remote c ident =
     andthen (str_add (client_url c @ THINGS @ FILTER_DATASTREAMS_ID_EQ) ident)
       (\<lambda>q. andthen (get_elements remote (q @ [CHR 0x27] @ ''&'' @ SELECT_ID_NAME)) get_name)"

definition SensorThingsService_1_1 :: "string \<Rightarrow> error + sta_client" where
  "SensorThingsService_1_1 u = BaseSensorThingsService u"

section \<open>sta.py: the client factory\<close>

text \<open>
  \<open>get_proxified_sta_url\<close> returns its argument unchanged for a URL that does not start
  with \<open>http\<close>, and a triple otherwise. The factory unpacks the result into three names:
  a string of exactly three characters unpacks into its characters, any other string raises
  \<open>ValueError\<close>.
\<close>

datatype proxified = Unchanged string | Proxified string string string

definition startswith :: "string \<Rightarrow> string \<Rightarrow> bool" where
  "startswith s p = (take (length p) s = p)"

definition get_proxified_sta_url :: "urllib \<Rightarrow> string \<Rightarrow> string \<Rightarrow> string \<Rightarrow> error + proxified" where
  "get_proxified_sta_url lib u version proxy_base =
     (if \<not> startswith u ''http'' then Inr (Unchanged u)
      else
        andthen (urlparse lib u) (\<lambda>parsed.
          let base_sta_url = urlunparse lib (parsed\<lparr>query := ''''\<rparr>);
              sta_url = quote lib base_sta_url;
              proxified_url = proxy_base @ ''?url='' @ sta_url
          in Inr (Proxified version proxified_url base_sta_url)))"

fun unpack3 :: "proxified \<Rightarrow> error + string \<times> string \<times> string" where
  "unpack3 (Proxified a b c) = Inr (a, b, c)"
| "unpack3 (Unchanged s) = (case s of [a, b, c] \<Rightarrow> Inr ([a], [b], [c]) | _ \<Rightarrow> Inl ValueError)"

definition SensorThingsService :: "urllib \<Rightarrow> string \<Rightarrow> string \<Rightarrow> string option \<Rightarrow> error + string \<times> sta_client" where
  "SensorThingsService lib u version proxy_base =
     andthen
       (case proxy_base of
          None \<Rightarrow> Inr (version, u, u)
        | Some p \<Rightarrow>
            if p = [] then Inr (version, u, u)
            else andthen (get_proxified_sta_url lib u version p) unpack3)
       (\<lambda>(version', clean_url, base_sta_url).
          if version' \<in> set [''1.1''] then
            andthen (SensorThingsService_1_1 clean_url) (\<lambda>c. Inr (base_sta_url, c))
          else Inl (NotImplementedError
                 (''The STA version ('' @ version' @ '') you requested is not implemented. Please use 1.0 or 1.1.'')))"

section \<open>The catalog\<close>

text \<open>
  The canonical fields that \<open>_get_indexed_dataset_fields\<close> returns (a dict in the source).
  The temporal extent is \<open>None\<close> where the dict has no such key (STA).
\<close>

record resource_fields =
  rf_name :: json
  rf_store :: string
  rf_subtype :: string
  rf_workspace :: string
  rf_typename :: string
  rf_alternate :: json
  rf_title :: json
  rf_abstract :: json
  rf_bbox_polygon :: polygon
  rf_srid :: json
  rf_keywords :: "json list"
  rf_temporal_extent_start :: "json option"
  rf_temporal_extent_end :: "json option"

datatype indexing_method = INDEXED | CASCADED

text \<open>
  Modelled from the spec: \<open>base_enumerations.SOURCE_TYPE_REMOTE\<close> is not under src/; the
  spec gives the source type of a harvested resource as "remote".
\<close>

definition SOURCE_TYPE_REMOTE :: string where
  "SOURCE_TYPE_REMOTE = ''remote''"

text \<open>
  The saved service instance handed to \<open>harvest_resource\<close>; \<open>svc_ptype = None\<close> is an
  instance without the attribute \<open>ptype\<close>. \<open>operations\<close> is the JSON field of the service.
\<close>

record geonode_service =
  svc_owner :: string
  svc_name :: string
  svc_method :: indexing_method
  svc_ptype :: "string option"
  service_url :: string
  operations :: json

record dataset =
  ds_id :: nat
  ds_fields :: resource_fields
  is_approved :: bool
  is_published :: bool
  owner :: string
  remote_service :: string
  remote_typename :: string
  sourcetype :: string
  ptype :: string
  ows_url :: json

record link =
  link_resource :: nat
  link_name :: string
  link_type :: string
  link_extension :: string
  link_url :: json
  link_mime :: string

record catalog =
  datasets :: "dataset list"
  links :: "link list"

text \<open>
  The catalog persistence layer (\<open>Dataset.objects\<close>, \<open>resource_manager\<close>,
  \<open>Link.objects\<close>) is not under src/. The spec gives it as \<open>exists(name, store,
  workspace)\<close>, \<open>create(defaults)\<close>, \<open>setKeywords(handle, set)\<close>,
  \<open>setPermissions(handle)\<close> and \<open>linkResource(handle, linkMetadata)\<close>, and each
  operation below is modelled from these words.
\<close>

text \<open>
  Modelled from the spec: \<open>Dataset.objects.filter(name=..., store=..., workspace=...)\<close>, not
  under src/; the datasets of the catalog with this name, store and workspace
  (\<open>exists(name, store, workspace)\<close> holds when there is one).
\<close>

definition Dataset_filter :: "catalog \<Rightarrow> json \<Rightarrow> string \<Rightarrow> string \<Rightarrow> dataset list" where
  "Dataset_filter cat n st ws =
     filter (\<lambda>d. rf_name (ds_fields d) = n \<and> rf_store (ds_fields d) = st \<and> rf_workspace (ds_fields d) = ws)
       (datasets cat)"

text \<open>
  Modelled from the spec: \<open>resource_manager.create(None, resource_type=Dataset,
  defaults=defaults)\<close>, not under src/; \<open>create(defaults)\<close> stores the record it is given
  under a fresh handle and returns it.
\<close>

definition resource_manager_create :: "dataset \<Rightarrow> catalog \<Rightarrow> dataset \<times> catalog" where
  "resource_manager_create defaults cat =
     (let d = defaults\<lparr>ds_id := length (datasets cat)\<rparr>
      in (d, cat\<lparr>datasets := datasets cat @ [d]\<rparr>))"

text \<open>
  Modelled from the spec: \<open>setKeywords(handle, set)\<close> on one record, not under src/.
\<close>

definition set_keywords :: "json list \<Rightarrow> dataset \<Rightarrow> dataset" where
  "set_keywords kws d = d\<lparr>ds_fields := (ds_fields d)\<lparr>rf_keywords := kws\<rparr>\<rparr>"

text \<open>
  Modelled from the spec: \<open>resource_manager.update(uuid, instance=..., keywords=keywords)\<close>,
  not under src/; sets the keywords of the record with this handle, in the catalog and in the
  instance returned.
\<close>

definition resource_manager_update :: "dataset \<Rightarrow> json list \<Rightarrow> catalog \<Rightarrow> dataset \<times> catalog" where
  "resource_manager_update d kws cat =
     (set_keywords kws d,
      cat\<lparr>datasets := map (\<lambda>x. if ds_id x = ds_id d then set_keywords kws x else x) (datasets cat)\<rparr>)"

text \<open>
  Modelled from the spec: \<open>resource_manager.set_permissions(uuid, instance=...)\<close>, not under
  src/; \<open>setPermissions(handle)\<close> leaves the records of the catalog as they are.
\<close>

definition resource_manager_set_permissions :: "dataset \<Rightarrow> catalog \<Rightarrow> catalog" where
  "resource_manager_set_permissions d cat = cat"

text \<open>
  Modelled from the spec: \<open>Dataset.objects.filter(id=...).update(ows_url=...)\<close>, not under
  src/; sets the access URL of the record with this handle.
\<close>

definition Dataset_update_ows_url :: "nat \<Rightarrow> json \<Rightarrow> catalog \<Rightarrow> catalog" where
  "Dataset_update_ows_url i u cat =
     cat\<lparr>datasets := map (\<lambda>x. if ds_id x = i then x\<lparr>ows_url := u\<rparr> else x) (datasets cat)\<rparr>"

text \<open>
  Modelled from the spec: \<open>Link.objects.filter(resource=..., name=..., link_type=...)\<close>, not
  under src/; the link records of this resource with this name and type.
\<close>

definition Link_filter :: "catalog \<Rightarrow> nat \<Rightarrow> string \<Rightarrow> string \<Rightarrow> link list" where
  "Link_filter cat r n t =
     filter (\<lambda>l. link_resource l = r \<and> link_name l = n \<and> link_type l = t) (links cat)"

text \<open>
  Modelled from the spec: \<open>Link.objects.update_or_create(resource=..., name=...,
  link_type=..., defaults=...)\<close>, not under src/; \<open>linkResource(handle, linkMetadata)\<close>
  rewrites the link of this resource with this name and type, or adds it.
\<close>

definition Link_update_or_create :: "link \<Rightarrow> catalog \<Rightarrow> catalog" where
  "Link_update_or_create l cat =
     (if Link_filter cat (link_resource l) (link_name l) (link_type l) = []
      then cat\<lparr>links := links cat @ [l]\<rparr>
      else cat\<lparr>links :=
             map (\<lambda>x. if link_resource x = link_resource l \<and> link_name x = link_name l \<and> link_type x = link_type l
                       then l else x) (links cat)\<rparr>)"

section \<open>sta.py: StaServiceHandler\<close>

text \<open>\<open>self.url\<close> and \<open>self.name = slugify(self.url)[:255]\<close>.\<close>

record handler =
  handler_url :: string
  handler_name :: string

definition ServiceHandler :: "collaborators \<Rightarrow> string \<Rightarrow> handler" where
  "ServiceHandler collab u = \<lparr>handler_url = u, handler_name = take 255 (slugify collab u)\<rparr>"

text \<open>
  The property \<open>parsed_service\<close> builds a new client at every access, for version 1.1
  and without a proxy; the timeout it reads from the settings plays no part here.
\<close>

definition sta_parsed_service :: "urllib \<Rightarrow> handler \<Rightarrow> error + sta_client" where
  "sta_parsed_service lib h =
     andthen (SensorThingsService lib (handler_url h) ''1.1'' None) (\<lambda>(u', parsed). Inr parsed)"

definition sta_get_keywords_for_resource :: "urllib \<Rightarrow> remote \<Rightarrow> handler \<Rightarrow> json \<Rightarrow> error + json list" where
  "sta_get_keywords_for_resource lib remote h resource_id =
     andthen (sta_parsed_service lib h) (\<lambda>c1.
     andthen (getObservedPropertyNamesForDatastream remote c1 resource_id) (\<lambda>l1.
     andthen (set_update [] l1) (\<lambda>k1.
     andthen (sta_parsed_service lib h) (\<lambda>c2.
     andthen (getFeatureOfInterestNamesForDatastream remote c2 resource_id) (\<lambda>l2.
     andthen (set_update k1 l2) (\<lambda>k2.
     andthen (sta_parsed_service lib h) (\<lambda>c3.
     andthen (getSensorNamesForDatastream remote c3 resource_id) (\<lambda>l3.
     andthen (set_update k2 l3) (\<lambda>k3.
     andthen (sta_parsed_service lib h) (\<lambda>c4.
     andthen (getThingNamesForDatastream remote c4 resource_id) (\<lambda>l4.
     set_update k3 l4)))))))))))"

definition sta_get_resource :: "urllib \<Rightarrow> remote \<Rightarrow> handler \<Rightarrow> string \<Rightarrow> error + json" where
  "sta_get_resource lib remote h resource_id =
     andthen (sta_parsed_service lib h) (\<lambda>c. getDatastream remote c resource_id)"

text \<open>
  \<open>__get_bbox\<close>. The loop over the features appends to \<open>x_list\<close> and \<open>y_list\<close>; the
  box derived from them is the tuple \<open>(min(x_list), max(x_list), min(y_list), max(y_list))\<close>.
\<close>

definition feature_point :: "collaborators \<Rightarrow> json \<Rightarrow> error + rat \<times> rat" where
  "feature_point collab f =
     andthen (getitem f ''feature'') (\<lambda>ft.
     andthen (point_coordinates collab ft) (\<lambda>coordinates.
       if 0 < length coordinates then
         (if 1 < length coordinates then Inr (coordinates ! 0, coordinates ! 1) else Inl IndexError)
       else Inl IndexError))"

definition features_bbox :: "collaborators \<Rightarrow> json \<Rightarrow> error + json" where
  "features_bbox collab features =
     andthen (py_iter features) (\<lambda>fs.
     andthen (map_result (feature_point collab) fs) (\<lambda>pts.
       let x_list = map fst pts; y_list = map snd pts in
       andthen (py_min x_list) (\<lambda>x0.
       andthen (py_max x_list) (\<lambda>x1.
       andthen (py_min y_list) (\<lambda>y0.
       andthen (py_max y_list) (\<lambda>y1.
         Inr (JArr [JNum x0, JNum x1, JNum y0, JNum y1])))))))"

definition sta_get_bbox :: "collaborators \<Rightarrow> urllib \<Rightarrow> remote \<Rightarrow> handler \<Rightarrow> json \<Rightarrow> error + json" where
  "sta_get_bbox collab lib remote h dataset_meta =
     andthen (getitem dataset_meta ''observedArea'') (\<lambda>observedArea.
     andthen (if observedArea \<noteq> JNull then decimal_encode collab observedArea else Inr observedArea) (\<lambda>bbox.
     andthen
       (if bbox = JNull then
          andthen (sta_parsed_service lib h) (\<lambda>c.
          andthen (getitem dataset_meta IOT_ID) (\<lambda>ident.
          andthen (getFeaturesForDatastream remote c ident) (features_bbox collab)))
        else Inr bbox)
       (\<lambda>bbox. andthen (py_len bbox) (\<lambda>n. if n < 4 then Inl (BBoxNotValid bbox) else Inr bbox))))"

text \<open>
  \<open>''.join(c for c in name if ord(c) < 128)\<close>: \<open>ord\<close> takes a string of one character.
  \<open>f"{v}"\<close> is \<open>v\<close> itself for a string and \<open>str(v)\<close> otherwise.
\<close>

fun ord_char :: "json \<Rightarrow> error + char" where
  "ord_char (JStr [c]) = Inr c"
| "ord_char _ = Inl TypeError"

definition ascii_only :: "json \<Rightarrow> error + string" where
  "ascii_only v =
     andthen (py_iter v) (\<lambda>cs.
     andthen (map_result ord_char cs) (\<lambda>chars. Inr (filter (\<lambda>c. (of_char c :: nat) < 128) chars)))"

fun format_value :: "collaborators \<Rightarrow> json \<Rightarrow> string" where
  "format_value collab (JStr s) = s"
| "format_value collab v = py_str collab v"

definition sta_get_indexed_dataset_fields ::
    "collaborators \<Rightarrow> urllib \<Rightarrow> remote \<Rightarrow> handler \<Rightarrow> json \<Rightarrow> error + resource_fields" where
  "sta_get_indexed_dataset_fields collab lib remote h dataset_meta =
     andthen (sta_get_bbox collab lib remote h dataset_meta) (\<lambda>bbox.
     andthen (getitem dataset_meta IOT_ID) (\<lambda>ident.
     andthen (getitem dataset_meta NAME) (\<lambda>nm.
     andthen (ascii_only nm) (\<lambda>ascii_name.
     let typename = slugify collab (format_value collab ident @ ''-'' @ ascii_name) in
     andthen (getitem dataset_meta DESCRIPTION) (\<lambda>descr.
     andthen (getindex bbox 0) (\<lambda>b0.
     andthen (getindex bbox 2) (\<lambda>b2.
     andthen (getindex bbox 1) (\<lambda>b1.
     andthen (getindex bbox 3) (\<lambda>b3.
     andthen (py_len bbox) (\<lambda>n.
     andthen (if n > 4 then getindex bbox 4 else Inr (JStr ''EPSG:4326'')) (\<lambda>srid.
     andthen (sta_get_keywords_for_resource lib remote h ident) (\<lambda>kws.
     andthen (map_result slice100 kws) (\<lambda>keywords.
       Inr \<lparr>rf_name = nm,
            rf_store = handler_name h,
            rf_subtype = ''remote'',
            rf_workspace = ''remoteWorkspace'',
            rf_typename = typename,
            rf_alternate = nm,
            rf_title = nm,
            rf_abstract = descr,
            rf_bbox_polygon = from_xy_as_polygon b0 b2 b1 b3,
            rf_srid = srid,
            rf_keywords = keywords,
            rf_temporal_extent_start = None,
            rf_temporal_extent_end = None\<rparr>)))))))))))))"

definition sta_create_dataset :: "geonode_service \<Rightarrow> resource_fields \<Rightarrow> bool \<Rightarrow> bool \<Rightarrow> catalog \<Rightarrow> dataset \<times> catalog" where
  "sta_create_dataset svc resource_fields approved published cat =
     (let keywords = rf_keywords resource_fields;
          defaults = \<lparr>ds_id = 0,
                      ds_fields = resource_fields\<lparr>rf_keywords := []\<rparr>,
                      is_approved = approved,
                      is_published = published,
                      owner = svc_owner svc,
                      remote_service = svc_name svc,
                      remote_typename = svc_name svc,
                      sourcetype = SOURCE_TYPE_REMOTE,
                      ptype = (case svc_ptype svc of None \<Rightarrow> ''gxp_wmscsource'' | Some p \<Rightarrow> p),
                      ows_url = (if svc_method svc = INDEXED then JStr (service_url svc) else JNull)\<rparr>;
          (geonode_dataset, cat1) = resource_manager_create defaults cat;
          (geonode_dataset, cat2) = resource_manager_update geonode_dataset keywords cat1;
          cat3 = resource_manager_set_permissions geonode_dataset cat2
      in (geonode_dataset, cat3))"

definition sta_create_dataset_service_link :: "dataset \<Rightarrow> catalog \<Rightarrow> catalog" where
  "sta_create_dataset_service_link geonode_dataset cat =
     (let ogc_sta_url = ows_url geonode_dataset;
          ogc_sta_name = ''OGC STA: '' @ rf_store (ds_fields geonode_dataset) @ '' Service'';
          ogc_sta_link_type = ''OGC:STA''
      in if length (Link_filter cat (ds_id geonode_dataset) ogc_sta_name ogc_sta_link_type) < 2
         then Link_update_or_create
                \<lparr>link_resource = ds_id geonode_dataset, link_name = ogc_sta_name,
                 link_type = ogc_sta_link_type, link_extension = ''html'',
                 link_url = ogc_sta_url, link_mime = ''text/html''\<rparr> cat
         else cat)"

text \<open>
  \<open>harvest_resource\<close> returns nothing; the model returns the exception raised, if any,
  together with the catalog as the call leaves it.
\<close>

definition sta_harvest_resource ::
    "collaborators \<Rightarrow> urllib \<Rightarrow> settings \<Rightarrow> remote \<Rightarrow> handler \<Rightarrow> string \<Rightarrow> geonode_service \<Rightarrow> catalog
       \<Rightarrow> (error + unit) \<times> catalog" where
  "sta_harvest_resource collab lib conf remote h resource_id svc cat =
     (case sta_get_resource lib remote h resource_id of
        Inl e \<Rightarrow> (Inl e, cat)
      | Inr dataset_meta \<Rightarrow>
         (case sta_get_indexed_dataset_fields collab lib remote h dataset_meta of
            Inl e \<Rightarrow> (Inl e, cat)
          | Inr resource_fields \<Rightarrow>
              if Dataset_filter cat (rf_name resource_fields) (rf_store resource_fields)
                   (rf_workspace resource_fields) \<noteq> []
              then (Inl (AlreadyHarvested resource_id), cat)
              else
                let moderated = (RESOURCE_PUBLISHING conf \<or> ADMIN_MODERATE_UPLOADS conf);
                    (geonode_dataset, cat1) =
                      sta_create_dataset svc resource_fields (\<not> moderated) (\<not> moderated) cat;
                    cat2 = sta_create_dataset_service_link geonode_dataset cat1
                in (Inr (), cat2)))"

section \<open>sos.py: the client factory\<close>

text \<open>
  An offering as the SOS client exposes it: attributes of an object. \<open>name\<close>,
  \<open>description\<close>, \<open>bbox\<close> and \<open>bbox_srs\<close> are \<open>None\<close> where the capabilities
  document has no such element; the keyword-like attributes are lists of strings.
\<close>

record offering =
  off_id :: string
  off_name :: "string option"
  off_description :: "string option"
  off_bbox :: "rat list option"
  off_bbox_srs :: "string option"
  observed_properties :: "string list"
  procedures :: "string list"
  features_of_interest :: "string list"
  begin_position :: json
  end_position :: json

record sos_client =
  contents :: "string \<Rightarrow> offering option"

text \<open>
  What the factory calls outside sos.py: \<open>owslib.util.clean_ows_url\<close>,
  \<open>base.get_proxified_ows_url\<close> (its result already unpacked into the three names, or the
  exception raised), and the two client constructors, given the URL and the version.
\<close>

record sos_collaborators =
  clean_ows_url :: "string \<Rightarrow> error + string"
  get_proxified_ows_url :: "string \<Rightarrow> string \<Rightarrow> string \<Rightarrow> error + string \<times> string \<times> string"
  SensorObservationService_1_0_0 :: "string \<Rightarrow> string \<Rightarrow> error + sos_client"
  sos_2_0_0 :: "string \<Rightarrow> string \<Rightarrow> error + sos_client"

definition SensorObservationService ::
    "sos_collaborators \<Rightarrow> string \<Rightarrow> string \<Rightarrow> string option \<Rightarrow> error + string \<times> sos_client" where
  "SensorObservationService sc u version proxy_base =
     andthen
       (case proxy_base of
          None \<Rightarrow> andthen (clean_ows_url sc u) (\<lambda>clean_url. Inr (version, clean_url, clean_url))
        | Some p \<Rightarrow>
            if p = [] then andthen (clean_ows_url sc u) (\<lambda>clean_url. Inr (version, clean_url, clean_url))
            else get_proxified_ows_url sc u version p)
       (\<lambda>(version', clean_url, base_ows_url).
          if version' \<in> set [''1.0.0''] then
            andthen (SensorObservationService_1_0_0 sc clean_url version') (\<lambda>c. Inr (base_ows_url, c))
          else if version' \<in> set [''2.0.0'', ''2.0''] then
            andthen (sos_2_0_0 sc clean_url version') (\<lambda>c. Inr (base_ows_url, c))
          else Inl (NotImplementedError
                 (''The SOS version ('' @ version' @ '') you requested is not implemented. Please use 1.0.0 or 2.0.0.'')))"

section \<open>sos.py: SosServiceHandler\<close>

text \<open>
  A Python \<open>dict\<close> built from a list of pairs: a key keeps the place of its first
  occurrence and the value of its last one.
\<close>

fun dict_set :: "('k \<times> 'v) list \<Rightarrow> 'k \<Rightarrow> 'v \<Rightarrow> ('k \<times> 'v) list" where
  "dict_set [] k v = [(k, v)]"
| "dict_set ((k', v') # d) k v = (if k' = k then (k, v) # d else (k', v') # dict_set d k v)"

definition py_dict :: "('k \<times> 'v) list \<Rightarrow> ('k \<times> 'v) list" where
  "py_dict pairs = fold (\<lambda>kv d. dict_set d (fst kv) (snd kv)) pairs []"

definition dict_pop :: "('k \<times> 'v) list \<Rightarrow> 'k \<Rightarrow> ('k \<times> 'v) list" where
  "dict_pop d k = filter (\<lambda>kv. fst kv \<noteq> k) d"

text \<open>
  \<open>get_cleaned_url_params\<close> returns the tuple \<open>(new_url, _service, _version, _request)\<close>,
  \<open>new_url\<close> a \<open>ParseResult\<close>.
\<close>

definition get_cleaned_url_params ::
    "urllib \<Rightarrow> string \<Rightarrow> error + parse_result \<times> string option \<times> string \<times> string option" where
  "get_cleaned_url_params lib u =
     (let u1 = unquote lib u in
      andthen (urlparse lib u1) (\<lambda>parsed_url.
        let get_args = query parsed_url;
            parsed_get_args = py_dict (parse_qsl lib get_args);
            version = (case map_of parsed_get_args ''version'' of None \<Rightarrow> ''2.0.0'' | Some v \<Rightarrow> v);
            parsed_get_args = dict_pop parsed_get_args ''version'';
            service = map_of parsed_get_args ''service'';
            parsed_get_args = dict_pop parsed_get_args ''service'';
            request = map_of parsed_get_args ''request'';
            parsed_get_args = dict_pop parsed_get_args ''request'';
            encoded_get_args = urlencode lib parsed_get_args;
            new_url = \<lparr>scheme = scheme parsed_url, netloc = netloc parsed_url, path = path parsed_url,
                       params = params parsed_url, query = encoded_get_args,
                       fragment = fragment parsed_url\<rparr>
        in Inr (new_url, service, version, request)))"

definition sos_parsed_service :: "urllib \<Rightarrow> sos_collaborators \<Rightarrow> handler \<Rightarrow> error + sos_client" where
  "sos_parsed_service lib sc h =
     andthen (get_cleaned_url_params lib (handler_url h)) (\<lambda>(cleaned_url, service, version, request).
     andthen (SensorObservationService sc (urlunparse lib cleaned_url) version None) (\<lambda>(u', parsed).
       Inr parsed))"

definition sos_get_keywords_for_resource :: "offering \<Rightarrow> string list" where
  "sos_get_keywords_for_resource off =
     (let keywords = [];
          keywords = set_add_all keywords (observed_properties off);
          keywords = set_add_all keywords (procedures off);
          keywords = set_add_all keywords (features_of_interest off)
      in keywords)"

definition sos_get_resource :: "urllib \<Rightarrow> sos_collaborators \<Rightarrow> handler \<Rightarrow> string \<Rightarrow> error + offering" where
  "sos_get_resource lib sc h resource_id =
     andthen (sos_parsed_service lib sc h) (\<lambda>c.
       case contents c resource_id of
         None \<Rightarrow> Inl (KeyError (JStr resource_id))
       | Some off \<Rightarrow> Inr off)"

fun opt_json :: "string option \<Rightarrow> json" where
  "opt_json None = JNull"
| "opt_json (Some s) = JStr s"

definition sos_get_indexed_dataset_fields :: "collaborators \<Rightarrow> handler \<Rightarrow> offering \<Rightarrow> error + resource_fields" where
  "sos_get_indexed_dataset_fields collab h off =
     (case off_bbox off of
        None \<Rightarrow> Inl TypeError
      | Some bbox \<Rightarrow>
          if length bbox < 4 then Inl (BBoxNotValid (JArr (map JNum bbox)))
          else
            (case off_name off of
               None \<Rightarrow> Inl TypeError
             | Some nm \<Rightarrow>
                 let typename = slugify collab (off_id off @ ''-'' @ filter (\<lambda>c. (of_char c :: nat) < 128) nm)
                 in Inr \<lparr>rf_name = JStr (off_id off),
                         rf_store = handler_name h,
                         rf_subtype = ''remote'',
                         rf_workspace = ''remoteWorkspace'',
                         rf_typename = typename,
                         rf_alternate = JStr (off_id off),
                         rf_title = JStr nm,
                         rf_abstract = opt_json (off_description off),
                         rf_bbox_polygon =
                           from_xy_as_polygon (JNum (bbox ! 0)) (JNum (bbox ! 2)) (JNum (bbox ! 1)) (JNum (bbox ! 3)),
                         rf_srid = (case off_bbox_srs off of None \<Rightarrow> JStr ''EPSG:4326'' | Some srs \<Rightarrow> JStr srs),
                         rf_keywords = map (\<lambda>keyword. JStr (take 100 keyword)) (sos_get_keywords_for_resource off),
                         rf_temporal_extent_start = Some (begin_position off),
                         rf_temporal_extent_end = Some (end_position off)\<rparr>))"

definition sos_create_dataset :: "geonode_service \<Rightarrow> resource_fields \<Rightarrow> bool \<Rightarrow> bool \<Rightarrow> catalog \<Rightarrow> dataset \<times> catalog" where
  "sos_create_dataset svc resource_fields approved published cat =
     (let keywords = rf_keywords resource_fields;
          defaults = \<lparr>ds_id = 0,
                      ds_fields = resource_fields\<lparr>rf_keywords := []\<rparr>,
                      is_approved = approved,
                      is_published = published,
                      owner = svc_owner svc,
                      remote_service = svc_name svc,
                      remote_typename = svc_name svc,
                      sourcetype = SOURCE_TYPE_REMOTE,
                      ptype = (case svc_ptype svc of
                                 None \<Rightarrow> ''gxp_wmscsource''
                               | Some p \<Rightarrow> if p = [] then ''gxp_wmscsource'' else p),
                      ows_url = (if svc_method svc = INDEXED then JStr (service_url svc) else JNull)\<rparr>;
          (geonode_dataset, cat1) = resource_manager_create defaults cat;
          (geonode_dataset, cat2) = resource_manager_update geonode_dataset keywords cat1;
          cat3 = resource_manager_set_permissions geonode_dataset cat2
      in (geonode_dataset, cat3))"

text \<open>
  The loop of \<open>_create_dataset_service_link\<close> over the methods of \<open>GetCapabilities\<close>: the
  URL of the first method of type GET that has one, where the loop breaks.
\<close>

fun first_get_url :: "json list \<Rightarrow> error + json option" where
  "first_get_url [] = Inr None"
| "first_get_url (op_method # rest) =
     andthen (py_get op_method ''type'') (\<lambda>t.
     andthen (py_upper t) (\<lambda>up.
       if up = ''GET'' then
         andthen (py_get op_method ''url'') (\<lambda>u. if py_truthy u then Inr (Some u) else first_get_url rest)
       else first_get_url rest))"

definition sos_create_dataset_service_link :: "geonode_service \<Rightarrow> dataset \<Rightarrow> catalog \<Rightarrow> (error + unit) \<times> catalog" where
  "sos_create_dataset_service_link svc geonode_dataset cat =
     (let ogc_sos_link_type = ''OGC:SOS'';
          ogc_sos_name = ''OGC SOS: '' @ rf_store (ds_fields geonode_dataset) @ '' Service'';
          ogc_sos_url = ows_url geonode_dataset
      in case
           andthen (py_get (operations svc) ''GetCapabilities'') (\<lambda>caps.
             if py_truthy caps then
               andthen (py_get caps ''methods'') (\<lambda>ms.
                 if py_truthy ms then andthen (py_iter ms) first_get_url else Inr None)
             else Inr None)
         of
           Inl e \<Rightarrow> (Inl e, cat)
         | Inr found \<Rightarrow>
             let (ogc_sos_url, cat1) =
                   (case found of
                      None \<Rightarrow> (ogc_sos_url, cat)
                    | Some u \<Rightarrow> (u, Dataset_update_ows_url (ds_id geonode_dataset) u cat))
             in if length (Link_filter cat1 (ds_id geonode_dataset) ogc_sos_name ogc_sos_link_type) < 2
                then (Inr (),
                      Link_update_or_create
                        \<lparr>link_resource = ds_id geonode_dataset, link_name = ogc_sos_name,
                         link_type = ogc_sos_link_type, link_extension = ''html'',
                         link_url = ogc_sos_url, link_mime = ''text/html''\<rparr> cat1)
                else (Inr (), cat1))"

definition sos_harvest_resource ::
    "collaborators \<Rightarrow> urllib \<Rightarrow> sos_collaborators \<Rightarrow> settings \<Rightarrow> handler \<Rightarrow> string \<Rightarrow> geonode_service \<Rightarrow> catalog
       \<Rightarrow> (error + unit) \<times> catalog" where
  "sos_harvest_resource collab lib sc conf h resource_id svc cat =
     (case sos_get_resource lib sc h resource_id of
        Inl e \<Rightarrow> (Inl e, cat)
      | Inr off \<Rightarrow>
         (case sos_get_indexed_dataset_fields collab h off of
            Inl e \<Rightarrow> (Inl e, cat)
          | Inr resource_fields \<Rightarrow>
              if Dataset_filter cat (rf_name resource_fields) (rf_store resource_fields)
                   (rf_workspace resource_fields) \<noteq> []
              then (Inl (AlreadyHarvested resource_id), cat)
              else
                let moderated = (RESOURCE_PUBLISHING conf \<or> ADMIN_MODERATE_UPLOADS conf);
                    (geonode_dataset, cat1) =
                      sos_create_dataset svc resource_fields (\<not> moderated) (\<not> moderated) cat
                in sos_create_dataset_service_link svc geonode_dataset cat1))"

section \<open>A model of urllib.parse\<close>

text \<open>
  Most theorems below hold for every \<open>urllib\<close>. The examples, and the statement on cleaning
  a URL a second time, need the functions themselves: they use this model of CPython's
  \<open>urllib.parse\<close>. It follows the library on
  URLs of printable ASCII characters whose percent escapes are below \<open>%80\<close>: \<open>unquote\<close>
  decodes every \<open>%XX\<close> in one pass; \<open>urlsplit\<close> takes the scheme up to the first colon,
  the netloc after \<open>//\<close> up to the first of \<open>/?#\<close>, then the fragment and the query;
  \<open>urlparse\<close> splits the parameters off the last path segment; \<open>parse_qsl\<close> splits at
  \<open>&\<close>, drops the fields without \<open>=\<close> or with a blank value, turns \<open>+\<close> into a space and
  unquotes; \<open>urlencode\<close> joins \<open>quote_plus(k)=quote_plus(v)\<close> with \<open>&\<close>; \<open>quote\<close> keeps
  letters, digits and \<open>_.-~\<close>.
\<close>

definition hexval :: "char \<Rightarrow> nat option" where
  "hexval c = map_of (zip ''0123456789abcdef'' [0..<16] @ zip ''ABCDEF'' [10..<16]) c"

fun model_unquote :: "string \<Rightarrow> string" where
  "model_unquote [] = []"
| "model_unquote (c # cs) =
     (if c = CHR ''%'' then
        (case cs of
           h1 # h2 # rest \<Rightarrow>
             (case (hexval h1, hexval h2) of
                (Some a, Some b) \<Rightarrow> char_of (16 * a + b) # model_unquote rest
              | _ \<Rightarrow> c # model_unquote cs)
         | _ \<Rightarrow> c # model_unquote cs)
      else c # model_unquote cs)"

definition always_safe :: string where
  "always_safe = ''ABCDEFGHIJKLMNOPQRSTUVWXYZabcdefghijklmnopqrstuvwxyz0123456789_.-~''"

definition percent_encode :: "char \<Rightarrow> string" where
  "percent_encode c =
     (let n = (of_char c :: nat)
      in [CHR ''%'', ''0123456789ABCDEF'' ! (n div 16), ''0123456789ABCDEF'' ! (n mod 16)])"

definition model_quote :: "string \<Rightarrow> string" where
  "model_quote s = concat (map (\<lambda>c. if c \<in> set always_safe then [c] else percent_encode c) s)"

definition model_quote_plus :: "string \<Rightarrow> string" where
  "model_quote_plus s =
     concat (map (\<lambda>c. if c = CHR '' '' then ''+'' else if c \<in> set always_safe then [c] else percent_encode c) s)"

definition split_first :: "char \<Rightarrow> string \<Rightarrow> string \<times> string option" where
  "split_first c s =
     (takeWhile (\<lambda>x. x \<noteq> c) s,
      case dropWhile (\<lambda>x. x \<noteq> c) s of [] \<Rightarrow> None | x # r \<Rightarrow> Some r)"

definition model_parse_qsl :: "string \<Rightarrow> (string \<times> string) list" where
  "model_parse_qsl qs =
     concat (map (\<lambda>name_value.
        case split_first CHR ''='' name_value of
          (n, Some v) \<Rightarrow>
            if v \<noteq> [] then
              [(model_unquote (map (\<lambda>c. if c = CHR ''+'' then CHR '' '' else c) n),
                model_unquote (map (\<lambda>c. if c = CHR ''+'' then CHR '' '' else c) v))]
            else []
        | (n, None) \<Rightarrow> []) (split_on CHR ''&'' qs))"

definition model_urlencode :: "(string \<times> string) list \<Rightarrow> string" where
  "model_urlencode d =
     (case map (\<lambda>kv. model_quote_plus (fst kv) @ ''='' @ model_quote_plus (snd kv)) d of
        [] \<Rightarrow> []
      | x # xs \<Rightarrow> fold (\<lambda>y acc. acc @ ''&'' @ y) xs x)"

definition scheme_chars :: string where
  "scheme_chars = ''abcdefghijklmnopqrstuvwxyzABCDEFGHIJKLMNOPQRSTUVWXYZ0123456789+-.''"

definition lower_char :: "char \<Rightarrow> char" where
  "lower_char c =
     (let n = (of_char c :: nat) in if 65 \<le> n \<and> n \<le> 90 then char_of (n + 32) else c)"

definition uses_params :: "string list" where
  "uses_params = ['''', ''ftp'', ''hdl'', ''prospero'', ''http'', ''imap'', ''https'', ''shttp'',
                  ''rtsp'', ''rtspu'', ''sip'', ''sips'', ''mms'', ''sftp'', ''tel'']"

definition uses_netloc :: "string list" where
  "uses_netloc = ['''', ''ftp'', ''http'', ''gopher'', ''nntp'', ''telnet'', ''imap'', ''wais'',
                  ''file'', ''mms'', ''https'', ''shttp'', ''snews'', ''prospero'', ''rtsp'', ''rtspu'',
                  ''rsync'', ''svn'', ''svn+ssh'', ''sftp'', ''nfs'', ''git'', ''git+ssh'', ''ws'', ''wss'']"

definition model_urlsplit :: "string \<Rightarrow> error + string \<times> string \<times> string \<times> string \<times> string" where
  "model_urlsplit u =
     (let (sch, u1) =
            (case split_first CHR '':'' u of
               (pre, Some rest) \<Rightarrow>
                 if pre \<noteq> [] \<and> hd pre \<in> set (take 52 scheme_chars) \<and> list_all (\<lambda>c. c \<in> set scheme_chars) pre
                 then (map lower_char pre, rest) else ([], u)
             | (pre, None) \<Rightarrow> ([], u));
          (nl, u2) =
            (if take 2 u1 = ''//''
             then (takeWhile (\<lambda>c. c \<notin> set ''/?#'') (drop 2 u1), dropWhile (\<lambda>c. c \<notin> set ''/?#'') (drop 2 u1))
             else ([], u1))
      in if (CHR ''['' \<in> set nl \<and> CHR '']'' \<notin> set nl) \<or> (CHR '']'' \<in> set nl \<and> CHR ''['' \<notin> set nl)
         then Inl ValueError
         else
           let (u3, frag) = (case split_first CHR ''#'' u2 of (a, Some b) \<Rightarrow> (a, b) | (a, None) \<Rightarrow> (a, []));
               (u4, qry) = (case split_first CHR ''?'' u3 of (a, Some b) \<Rightarrow> (a, b) | (a, None) \<Rightarrow> (a, []))
           in Inr (sch, nl, u4, qry, frag))"

definition splitparams :: "string \<Rightarrow> string \<times> string" where
  "splitparams u =
     (let last_segment = rev (takeWhile (\<lambda>c. c \<noteq> CHR ''/'') (rev u));
          before = take (length u - length last_segment) u
      in case split_first CHR '';'' last_segment of
           (a, Some b) \<Rightarrow> (before @ a, b)
         | (a, None) \<Rightarrow> (u, []))"

definition model_urlparse :: "string \<Rightarrow> error + parse_result" where
  "model_urlparse u =
     andthen (model_urlsplit u) (\<lambda>(sch, nl, p, qry, frag).
       let (p1, prm) = (if sch \<in> set uses_params \<and> CHR '';'' \<in> set p then splitparams p else (p, []))
       in Inr \<lparr>scheme = sch, netloc = nl, path = p1, params = prm, query = qry, fragment = frag\<rparr>)"

definition model_urlunparse :: "parse_result \<Rightarrow> string" where
  "model_urlunparse r =
     (let u = (if params r \<noteq> [] then path r @ '';'' @ params r else path r);
          u = (if netloc r \<noteq> [] \<or> (scheme r \<noteq> [] \<and> scheme r \<in> set uses_netloc \<and> take 2 u \<noteq> ''//'')
               then ''//'' @ netloc r @ (if u \<noteq> [] \<and> take 1 u \<noteq> ''/'' then ''/'' @ u else u)
               else u);
          u = (if scheme r \<noteq> [] then scheme r @ '':'' @ u else u);
          u = (if query r \<noteq> [] then u @ ''?'' @ query r else u);
          u = (if fragment r \<noteq> [] then u @ ''#'' @ fragment r else u)
      in u)"

definition py_urllib :: urllib where
  "py_urllib = \<lparr>unquote = model_unquote, urlparse = model_urlparse, urlunparse = model_urlunparse,
                parse_qsl = model_parse_qsl, urlencode = model_urlencode, quote = model_quote\<rparr>"

subsection \<open>Cleaned URLs that a second cleaning leaves as they are\<close>

text \<open>
  A character of printable ASCII, from the space to \<open>~\<close>: the characters on which the model
  above follows the library.
\<close>

definition printable :: "char \<Rightarrow> bool" where
  "printable c = (32 \<le> (of_char c :: nat) \<and> (of_char c :: nat) < 127)"

text \<open>
  A string holds a percent escape when a \<open>%\<close> in it is followed by two hexadecimal digits:
  these are the places that \<open>unquote\<close> changes.
\<close>

fun has_escape :: "string \<Rightarrow> bool" where
  "has_escape (c # h1 # h2 # r) =
     ((c = CHR ''%'' \<and> hexval h1 \<noteq> None \<and> hexval h2 \<noteq> None) \<or> has_escape (h1 # h2 # r))"
| "has_escape _ = False"

text \<open>
  A parameter that survives one more cleaning: once the second cleaning has unquoted the URL,
  a \<open>&\<close>, \<open>#\<close> or \<open>+\<close> in a name or value, a \<open>=\<close> in a name, and a percent escape are read as
  syntax of the query and no longer as text.
\<close>

definition plain_name :: "string \<Rightarrow> bool" where
  "plain_name k = (list_all printable k \<and> \<not> has_escape k \<and> list_all (\<lambda>c. c \<notin> set ''&+#='') k)"

definition plain_value :: "string \<Rightarrow> bool" where
  "plain_value v = (list_all printable v \<and> \<not> has_escape v \<and> list_all (\<lambda>c. c \<notin> set ''&+#'') v)"

definition plain_param :: "string \<times> string \<Rightarrow> bool" where
  "plain_param kv = (plain_name (fst kv) \<and> plain_value (snd kv))"

text \<open>
  The other components of a cleaned URL: an http or https URL of printable ASCII characters
  with a netloc, no bracket in the netloc (no IPv6 literal), no \<open>;\<close> in the path and no path
  parameters, and no percent escape left in netloc, path and fragment.
\<close>

definition plain_components :: "parse_result \<Rightarrow> bool" where
  "plain_components r =
     ((scheme r = ''http'' \<or> scheme r = ''https'') \<and>
      list_all printable (netloc r @ path r @ fragment r) \<and>
      netloc r \<noteq> [] \<and> CHR ''['' \<notin> set (netloc r) \<and> CHR '']'' \<notin> set (netloc r) \<and>
      \<not> has_escape (netloc r) \<and> \<not> has_escape (path r) \<and> CHR '';'' \<notin> set (path r) \<and>
      params r = [] \<and> \<not> has_escape (fragment r))"

text \<open>
  Used in the proofs only. \<open>plus_join\<close> is what \<open>unquote\<close> makes of \<open>urlencode d\<close>: the names
  and values themselves, with \<open>+\<close> for each space, joined by \<open>=\<close> and \<open>&\<close>. \<open>http_url\<close> is
  the string of a URL with a netloc, from its parts.
\<close>

definition space_to_plus :: "string \<Rightarrow> string" where
  "space_to_plus s = map (\<lambda>c. if c = CHR '' '' then CHR ''+'' else c) s"

fun plus_join :: "(string \<times> string) list \<Rightarrow> string" where
  "plus_join [] = []"
| "plus_join [kv] = space_to_plus (fst kv) @ ''='' @ space_to_plus (snd kv)"
| "plus_join (kv # kvs) = space_to_plus (fst kv) @ ''='' @ space_to_plus (snd kv) @ ''&'' @ plus_join kvs"

definition http_url :: "string \<Rightarrow> string \<Rightarrow> string \<Rightarrow> string \<Rightarrow> string \<Rightarrow> string" where
  "http_url sch host pth q frag =
     sch @ ''://'' @ host @ pth @ (if q = [] then [] else ''?'' @ q) @ (if frag = [] then [] else ''#'' @ frag)"

text \<open>
  The key under which \<open>harvest_resource\<close> looks a dataset up in the catalog.
\<close>

definition dataset_key :: "dataset \<Rightarrow> json \<times> string \<times> string" where
  "dataset_key d = (rf_name (ds_fields d), rf_store (ds_fields d), rf_workspace (ds_fields d))"

section \<open>Inputs used in the examples\<close>

text \<open>
  A chain of three pages: the first two name the next page in \<open>@iot.nextLink\<close>, the third
  has no such key.
\<close>

definition pages3 :: remote where
  "pages3 u =
     (if u = ''http://sta/Datastreams'' then
        Inr (JObj [(''value'', JArr [JStr ''a'', JStr ''b'']),
                   (''@iot.nextLink'', JStr ''http://sta/Datastreams?$skip=2'')])
      else if u = ''http://sta/Datastreams?$skip=2'' then
        Inr (JObj [(''value'', JArr [JStr ''c'']),
                   (''@iot.nextLink'', JStr ''http://sta/Datastreams?$skip=3'')])
      else if u = ''http://sta/Datastreams?$skip=3'' then
        Inr (JObj [(''value'', JArr [JStr ''d''])])
      else Inl RequestException)"

text \<open>
  Stand-ins for the collaborators in the examples; the theorems hold for arbitrary ones.
  The remote STA endpoint serves five datastreams: 1 with a box of four numbers, 2 with a
  box of two, 3 without \<open>observedArea\<close>, 4 with \<open>observedArea\<close> null and two features
  of interest at the points (1, 4) and (3, 2), and 5, which answers the quoted identifier with an error document and the
  unquoted one with the record. Every other query gets one page with one named entity.
\<close>

definition example_collaborators :: collaborators where
  "example_collaborators =
     \<lparr>slugify = map (\<lambda>c. if c \<in> set scheme_chars then lower_char c else CHR ''-''),
      py_str = (\<lambda>v. ''?''),
      decimal_encode = Inr,
      point_coordinates = (\<lambda>ft.
        andthen (getitem ft ''coordinates'') (\<lambda>cs.
        andthen (py_iter cs) (map_result (\<lambda>x. case x of JNum r \<Rightarrow> Inr r | _ \<Rightarrow> Inl ValueError))))\<rparr>"

definition example_settings :: settings where
  "example_settings = \<lparr>RESOURCE_PUBLISHING = False, ADMIN_MODERATE_UPLOADS = False\<rparr>"

definition empty_catalog :: catalog where
  "empty_catalog = \<lparr>datasets = [], links = []\<rparr>"

definition example_service :: geonode_service where
  "example_service =
     \<lparr>svc_owner = ''admin'', svc_name = ''svc'', svc_method = INDEXED, svc_ptype = None,
      service_url = ''http://remote/service'',
      operations = JObj [(''GetCapabilities'',
                          JObj [(''methods'', JArr [JObj [(''type'', JStr ''Get''),
                                                         (''url'', JStr ''http://remote/caps'')]])])]\<rparr>"

definition datastream :: "string \<Rightarrow> (string \<times> json) list \<Rightarrow> json" where
  "datastream i extra =
     JObj ([(''error'', JNull), (''@iot.id'', JStr i), (''name'', JStr (''stream '' @ i)),
            (''description'', JStr ''water level'')] @ extra)"

definition example_sta_remote :: remote where
  "example_sta_remote u =
     (if u = ''http://sta/Datastreams('' @ [CHR 0x27] @ ''1'' @ [CHR 0x27] @ '')'' then
        Inr (datastream ''1'' [(''observedArea'', JArr [JNum 1, JNum 2, JNum 3, JNum 4])])
      else if u = ''http://sta/Datastreams('' @ [CHR 0x27] @ ''2'' @ [CHR 0x27] @ '')'' then
        Inr (datastream ''2'' [(''observedArea'', JArr [JNum 1, JNum 2])])
      else if u = ''http://sta/Datastreams('' @ [CHR 0x27] @ ''3'' @ [CHR 0x27] @ '')'' then
        Inr (datastream ''3'' [])
      else if u = ''http://sta/Datastreams('' @ [CHR 0x27] @ ''4'' @ [CHR 0x27] @ '')'' then
        Inr (datastream ''4'' [(''observedArea'', JNull)])
      else if u = ''http://sta/Datastreams('' @ [CHR 0x27] @ ''5'' @ [CHR 0x27] @ '')'' then
        Inr (JObj [(''error'', JStr ''no such id'')])
      else if u = ''http://sta/Datastreams(5)'' then
        Inr (JObj [(''@iot.id'', JNum 5), (''name'', JStr ''stream 5'')])
      else if u = ''http://sta/FeaturesOfInterest?$filter=Observations/Datastream/id eq ''
                  @ [CHR 0x27] @ ''4'' @ [CHR 0x27] then
        Inr (JObj [(''value'',
               JArr [JObj [(''feature'', JObj [(''type'', JStr ''Point''), (''coordinates'', JArr [JNum 1, JNum 4])])],
                     JObj [(''feature'', JObj [(''type'', JStr ''Point''), (''coordinates'', JArr [JNum 3, JNum 2])])]])])
      else Inr (JObj [(''value'', JArr [JObj [(''name'', JStr ''temperature'')]])]))"

definition example_sta_handler :: handler where
  "example_sta_handler = ServiceHandler example_collaborators ''http://sta''"

definition example_offering :: "string \<Rightarrow> rat list \<Rightarrow> offering" where
  "example_offering i box =
     \<lparr>off_id = i, off_name = Some (''offering '' @ i), off_description = None,
      off_bbox = Some box, off_bbox_srs = None,
      observed_properties = [''temperature'', ''salinity''], procedures = [''buoy''],
      features_of_interest = [''temperature''],
      begin_position = JNull, end_position = JNull\<rparr>"

definition example_sos_client :: sos_client where
  "example_sos_client =
     \<lparr>contents = map_of [(''off1'', example_offering ''off1'' [1, 2, 3, 4]),
                          (''off2'', example_offering ''off2'' [1, 2])]\<rparr>"

definition example_sos :: sos_collaborators where
  "example_sos =
     \<lparr>clean_ows_url = Inr,
      get_proxified_ows_url = (\<lambda>u version p. Inr (version, p @ ''?url='' @ model_quote u, u)),
      SensorObservationService_1_0_0 = (\<lambda>u version. Inr example_sos_client),
      sos_2_0_0 = (\<lambda>u version. Inr example_sos_client)\<rparr>"

definition example_sos_handler :: handler where
  "example_sos_handler = ServiceHandler example_collaborators ''http://sos/service?service=SOS&version=2.0.0''"

text \<open>An offering with two keywords of 101 characters that differ in the last one only.\<close>

definition long_keywords_offering :: offering where
  "long_keywords_offering =
     (example_offering ''off3'' [1, 2, 3, 4])
       \<lparr>observed_properties := [replicate 100 CHR ''k'' @ ''1'', replicate 100 CHR ''k'' @ ''2''],
        procedures := [''buoy''],
        features_of_interest := [''buoy'']\<rparr>"

section \<open>Basic facts\<close>

lemmas sta_constants =
  DATASTREAMS_def FEATURES_OF_INTEREST_def OBSERVED_PROPERTIES_def SENSORS_def THINGS_def
  FILTER_OBSERVATION_DATASTREAM_ID_EQ_def FILTER_DATASTREAMS_ID_EQ_def SELECT_ID_NAME_def
  VALUE_def NAME_def DESCRIPTION_def IOT_ID_def IOT_NEXT_LINK_def

declare get_elements_loop.simps [simp del]

lemma andthen_Inl [simp]: "andthen (Inl e) f = Inl e"
  by (simp add: andthen_def)

lemma andthen_Inr [simp]: "andthen (Inr x) f = f x"
  by (simp add: andthen_def)

lemma andthen_eq_Inr: "andthen m f = Inr y \<longleftrightarrow> (\<exists>x. m = Inr x \<and> f x = Inr y)"
  by (cases m) simp_all

section \<open>The paginated fetch\<close>

text \<open>The loop returns only when there is no next link; a next link that can be fetched ends it with \<open>AttributeError\<close>.\<close>

lemma get_elements_loop_no_link: "get_elements_loop remote elements JNull = Inr elements"
  by (simp add: get_elements_loop.simps)

lemma get_elements_loop_raises:
  assumes "remote next_url = Inr next_page"
  shows "get_elements_loop remote elements (JStr next_url) = Inl AttributeError"
  using assms by (simp add: get_elements_loop.simps get_json_data_def json_method_def)

lemma get_elements_loop_returns:
  assumes "get_elements_loop remote elements nextLink = Inr r"
  shows "nextLink = JNull \<and> r = elements"
  using assms
  by (cases "nextLink = JNull")
     (auto simp add: get_elements_loop.simps json_method_def split: sum.splits json.splits)

lemma get_elements_single_page:
  assumes "remote u = Inr (JObj kvs)"
    and "map_of kvs VALUE = Some elements"
    and "map_of kvs IOT_NEXT_LINK = None \<or> map_of kvs IOT_NEXT_LINK = Some JNull"
  shows "get_elements remote u = Inr elements"
  using assms
  by (auto simp add: get_elements_def get_json_data_def get_next_link_def get_elements_loop_no_link)

lemma get_elements_next_page_raises:
  assumes "remote u = Inr (JObj kvs)"
    and "map_of kvs VALUE = Some elements" and "elements \<noteq> JNull"
    and "map_of kvs IOT_NEXT_LINK = Some (JStr next_url)"
    and "remote next_url = Inr next_page"
  shows "get_elements remote u = Inl AttributeError"
  using assms
  by (simp add: get_elements_def get_json_data_def get_next_link_def get_elements_loop_raises)

text \<open>
  C1. On the chain of three pages the fetch should return the four entries a, b, c, d in
  page order. It raises \<open>AttributeError\<close> while following the first next link, since the
  loop calls \<open>.json()\<close> on the document that \<open>__get_json_data\<close> has already parsed.
\<close>

theorem get_elements_three_pages:
  "get_elements pages3 ''http://sta/Datastreams'' = Inl AttributeError"
  by (simp add: get_elements_def get_json_data_def get_next_link_def get_elements_loop.simps
        json_method_def pages3_def sta_constants)

section \<open>Fetching one datastream\<close>

text \<open>
  C10, as amended. \<open>getDatastream\<close> indexes the first response with the key \<open>error\<close>.
  For a first response that is a JSON object: without that key the call raises
  \<open>KeyError\<close>; with the key mapped to null the call returns that first response; with the
  key mapped to anything else the call returns whatever the request with the unquoted
  identifier yields, and looks at no key of it.
\<close>

theorem getDatastream_by_error_key:
  assumes "remote (client_url c @ DATASTREAMS @ ''('' @ [CHR 0x27] @ i @ [CHR 0x27] @ '')'') = Inr (JObj kvs)"
  shows "getDatastream remote c i =
           (case map_of kvs ''error'' of
              None \<Rightarrow> Inl (KeyError (JStr ''error''))
            | Some err \<Rightarrow>
                if err = JNull then Inr (JObj kvs)
                else remote (client_url c @ DATASTREAMS @ ''('' @ i @ '')''))"
  using assms
  by (simp add: getDatastream_def get_by_identifier_def get_json_data_def split: option.splits)


theorem getDatastream_by_error_key_witness:
  "getDatastream example_sta_remote \<lparr>client_url = ''http://sta/'', url_query_string = None\<rparr> ''5''
     = example_sta_remote ''http://sta/Datastreams(5)''
   \<and> getDatastream example_sta_remote \<lparr>client_url = ''http://sta/'', url_query_string = None\<rparr> ''3''
     = Inr (datastream ''3'' [])
   \<and> getDatastream (\<lambda>u. Inr (JObj [(''name'', JStr ''stream'')])) \<lparr>client_url = ''http://sta/'', url_query_string = None\<rparr> ''3''
     = Inl (KeyError (JStr ''error''))"
proof -
  have a: "example_sta_remote (client_url \<lparr>client_url = ''http://sta/'', url_query_string = None\<rparr>
             @ DATASTREAMS @ ''('' @ [CHR 0x27] @ ''5'' @ [CHR 0x27] @ '')'')
           = Inr (JObj [(''error'', JStr ''no such id'')])"
    by code_simp
  have b: "example_sta_remote (client_url \<lparr>client_url = ''http://sta/'', url_query_string = None\<rparr>
             @ DATASTREAMS @ ''('' @ [CHR 0x27] @ ''3'' @ [CHR 0x27] @ '')'')
           = Inr (JObj [(''error'', JNull), (''@iot.id'', JStr ''3''), (''name'', JStr ''stream 3''),
                        (''description'', JStr ''water level'')])"
    by code_simp
  have c: "(\<lambda>u. Inr (JObj [(''name'', JStr ''stream'')])) (client_url \<lparr>client_url = ''http://sta/'', url_query_string = None\<rparr>
             @ DATASTREAMS @ ''('' @ [CHR 0x27] @ ''3'' @ [CHR 0x27] @ '')'')
           = (Inr (JObj [(''name'', JStr ''stream'')]) :: error + json)"
    by simp
  show ?thesis
    using getDatastream_by_error_key[where remote = example_sta_remote and i = "''5''"
            and c = "\<lparr>client_url = ''http://sta/'', url_query_string = None\<rparr>", OF a]
          getDatastream_by_error_key[where remote = example_sta_remote and i = "''3''"
            and c = "\<lparr>client_url = ''http://sta/'', url_query_string = None\<rparr>", OF b]
          getDatastream_by_error_key[where remote = "\<lambda>u. Inr (JObj [(''name'', JStr ''stream'')])" and i = "''3''"
            and c = "\<lparr>client_url = ''http://sta/'', url_query_string = None\<rparr>", OF c]
    by (simp add: datastream_def DATASTREAMS_def)
qed

text \<open>
  C10 as stated fails where it says that a record is returned only for a response that
  has the key \<open>error\<close> mapped to null: for datastream 5 the first response maps \<open>error\<close> to
  a string, the retry returns a record, and that record has no key \<open>error\<close> at all.
\<close>

theorem getDatastream_retry_counterexample:
  "getDatastream example_sta_remote \<lparr>client_url = ''http://sta/'', url_query_string = None\<rparr> ''5''
     = Inr (JObj [(''@iot.id'', JNum 5), (''name'', JStr ''stream 5'')])
   \<and> getitem (JObj [(''@iot.id'', JNum 5), (''name'', JStr ''stream 5'')]) ''error''
     = Inl (KeyError (JStr ''error''))
   \<and> example_sta_remote (''http://sta/Datastreams('' @ [CHR 0x27] @ ''5'' @ [CHR 0x27] @ '')'')
     = Inr (JObj [(''error'', JStr ''no such id'')])"
  by code_simp

section \<open>The bounding box of a datastream\<close>

lemma sta_get_bbox_absent:
  assumes "map_of kvs ''observedArea'' = None"
  shows "sta_get_bbox collab lib remote h (JObj kvs) = Inl (KeyError (JStr ''observedArea''))"
  using assms by (simp add: sta_get_bbox_def)

lemma sta_get_bbox_provided:
  assumes "getitem dataset_meta ''observedArea'' = Inr observedArea" and "observedArea \<noteq> JNull"
    and "decimal_encode collab observedArea = Inr bbox" and "bbox \<noteq> JNull"
  shows "sta_get_bbox collab lib remote h dataset_meta =
           andthen (py_len bbox) (\<lambda>n. if n < 4 then Inl (BBoxNotValid bbox) else Inr bbox)"
  using assms by (simp add: sta_get_bbox_def)

lemma py_min_Min: "xs \<noteq> [] \<Longrightarrow> py_min xs = Inr (Min (set xs))"
  by (cases xs) (simp_all add: Min.set_eq_fold[symmetric])

lemma py_max_Max: "xs \<noteq> [] \<Longrightarrow> py_max xs = Inr (Max (set xs))"
  by (cases xs) (simp_all add: Max.set_eq_fold[symmetric])

lemma features_bbox_extent:
  assumes "py_iter features = Inr fs" and "map_result (feature_point collab) fs = Inr pts" and "pts \<noteq> []"
  shows "features_bbox collab features =
           Inr (JArr [JNum (Min (fst ` set pts)), JNum (Max (fst ` set pts)),
                      JNum (Min (snd ` set pts)), JNum (Max (snd ` set pts))])"
  using assms by (simp add: features_bbox_def py_min_Min py_max_Max)

lemma sta_get_bbox_derived:
  assumes "getitem dataset_meta ''observedArea'' = Inr JNull"
    and "sta_parsed_service lib h = Inr c"
    and "getitem dataset_meta IOT_ID = Inr ident"
    and "getFeaturesForDatastream remote c ident = Inr features"
    and "py_iter features = Inr fs"
    and "map_result (feature_point collab) fs = Inr pts" and "pts \<noteq> []"
  shows "sta_get_bbox collab lib remote h dataset_meta =
           Inr (JArr [JNum (Min (fst ` set pts)), JNum (Max (fst ` set pts)),
                      JNum (Min (snd ` set pts)), JNum (Max (snd ` set pts))])"
  using assms by (simp add: sta_get_bbox_def features_bbox_extent)

text \<open>
  C4. The box of a datastream should be derived from the features of interest when
  \<open>observedArea\<close> is absent as well as when it is null. Datastream 3 is fetched and has no
  key \<open>observedArea\<close>: \<open>__get_bbox\<close> raises \<open>KeyError\<close> at \<open>dataset_meta['observedArea']\<close>
  and derives nothing. (With the key mapped to null the box is derived, as
  \<open>sta_get_bbox_derived\<close> shows in general and the example after the theorem for
  datastream 4.)
\<close>

theorem sta_get_bbox_without_observedArea:
  "sta_get_resource py_urllib example_sta_remote example_sta_handler ''3'' = Inr (datastream ''3'' [])
   \<and> sta_get_bbox example_collaborators py_urllib example_sta_remote example_sta_handler (datastream ''3'' [])
       = Inl (KeyError (JStr ''observedArea''))"
  by code_simp

lemma sta_get_bbox_derived_example:
  "sta_get_bbox example_collaborators py_urllib example_sta_remote example_sta_handler
         (datastream ''4'' [(''observedArea'', JNull)]) = Inr (JArr [JNum 1, JNum 3, JNum 2, JNum 4])"
  by code_simp

section \<open>The order of the box in the stored polygon\<close>

lemma sos_fields_polygon:
  assumes "off_bbox off = Some (a # b # c # d # rest)"
    and "sos_get_indexed_dataset_fields collab h off = Inr f"
  shows "rf_bbox_polygon f = Polygon (JNum a) (JNum c) (JNum b) (JNum d)"
  using assms by (auto simp add: sos_get_indexed_dataset_fields_def Let_def split: option.splits if_splits)

lemma sta_fields_polygon:
  assumes "sta_get_bbox collab lib remote h dataset_meta = Inr (JArr (a # b # c # d # rest))"
    and "sta_get_indexed_dataset_fields collab lib remote h dataset_meta = Inr f"
  shows "rf_bbox_polygon f = Polygon a c b d"
  using assms
  by (auto simp add: sta_get_indexed_dataset_fields_def Let_def andthen_eq_Inr)

text \<open>
  Whatever the four leading entries (a, b, c, d) of the resolved box are, the normalizer
  hands them to \<open>BBOXHelper.from_xy\<close> as (a, c, b, d). A box that the offering or
  \<open>observedArea\<close> gives as (minx, miny, maxx, maxy) = (1, 2, 3, 4) is stored as (1, 3, 2, 4).
\<close>

lemma bbox_positions_swapped:
  "(off_bbox off = Some (a # b # c # d # rest) \<and>
    sos_get_indexed_dataset_fields collab h off = Inr f \<longrightarrow>
      rf_bbox_polygon f = Polygon (JNum a) (JNum c) (JNum b) (JNum d))
   \<and>
   (sta_get_bbox collab lib remote h dataset_meta = Inr (JArr (a' # b' # c' # d' # rest')) \<and>
    sta_get_indexed_dataset_fields collab lib remote h dataset_meta = Inr f' \<longrightarrow>
      rf_bbox_polygon f' = Polygon a' c' b' d')"
  using sos_fields_polygon sta_fields_polygon by blast

lemma bbox_positions_swapped_example:
  "map_sum id rf_bbox_polygon
     (sos_get_indexed_dataset_fields example_collaborators example_sos_handler (example_offering ''off1'' [1, 2, 3, 4]))
     = Inr (Polygon (JNum 1) (JNum 3) (JNum 2) (JNum 4))
   \<and> map_sum id rf_bbox_polygon
     (sta_get_indexed_dataset_fields example_collaborators py_urllib example_sta_remote example_sta_handler
        (datastream ''1'' [(''observedArea'', JArr [JNum 1, JNum 2, JNum 3, JNum 4])]))
     = Inr (Polygon (JNum 1) (JNum 3) (JNum 2) (JNum 4))"
proof -
  let ?sos = "sos_get_indexed_dataset_fields example_collaborators example_sos_handler (example_offering ''off1'' [1, 2, 3, 4])"
  let ?meta = "datastream ''1'' [(''observedArea'', JArr [JNum 1, JNum 2, JNum 3, JNum 4])]"
  let ?sta = "sta_get_indexed_dataset_fields example_collaborators py_urllib example_sta_remote example_sta_handler ?meta"
  have b1: "off_bbox (example_offering ''off1'' [1, 2, 3, 4]) = Some [1, 2, 3, 4]"
    by (simp add: example_offering_def)
  have f1: "?sos = Inr (projr ?sos)" by code_simp
  have b2: "sta_get_bbox example_collaborators py_urllib example_sta_remote example_sta_handler ?meta
              = Inr (JArr [JNum 1, JNum 2, JNum 3, JNum 4])"
    by code_simp
  have f2: "?sta = Inr (projr ?sta)" by code_simp
  from bbox_positions_swapped[THEN conjunct1, rule_format, OF conjI[OF b1 f1]]
  have p1: "rf_bbox_polygon (projr ?sos) = Polygon (JNum 1) (JNum 3) (JNum 2) (JNum 4)" .
  from bbox_positions_swapped[THEN conjunct2, rule_format, OF conjI[OF b2 f2]]
  have p2: "rf_bbox_polygon (projr ?sta) = Polygon (JNum 1) (JNum 3) (JNum 2) (JNum 4)" .
  have "map_sum id rf_bbox_polygon ?sos = Inr (rf_bbox_polygon (projr ?sos))"
    by (subst f1) simp
  moreover have "map_sum id rf_bbox_polygon ?sta = Inr (rf_bbox_polygon (projr ?sta))"
    by (subst f2) simp
  ultimately show ?thesis using p1 p2 by simp
qed

text \<open>
  C3. A harvested record whose box has minx = 1, miny = 2, maxx = 3 and maxy = 4 should be
  stored in the canonical order (1, 3, 2, 4), for SOS and for STA. Datastream 4 is fetched,
  has \<open>observedArea\<close> null and features of interest at (1, 4) and (3, 2): \<open>__get_bbox\<close>
  derives the tuple (min x, max x, min y, max y) = (1, 3, 2, 4), which is in the canonical
  order already, and the normalizer swaps its two middle entries all the same. The polygon
  is built from (1, 2, 3, 4): minx = 1, maxx = 2, miny = 3, maxy = 4.
\<close>

theorem derived_bbox_swapped_again:
  "sta_get_resource py_urllib example_sta_remote example_sta_handler ''4''
     = Inr (datastream ''4'' [(''observedArea'', JNull)])
   \<and> sta_get_bbox example_collaborators py_urllib example_sta_remote example_sta_handler
         (datastream ''4'' [(''observedArea'', JNull)])
     = Inr (JArr [JNum 1, JNum 3, JNum 2, JNum 4])
   \<and> map_sum id rf_bbox_polygon
         (sta_get_indexed_dataset_fields example_collaborators py_urllib example_sta_remote example_sta_handler
            (datastream ''4'' [(''observedArea'', JNull)]))
     = Inr (Polygon (JNum 1) (JNum 2) (JNum 3) (JNum 4))"
  by code_simp

section \<open>Harvesting into the catalog\<close>

lemma Dataset_filter_nonempty:
  "Dataset_filter cat n st ws \<noteq> [] \<longleftrightarrow> (n, st, ws) \<in> set (map dataset_key (datasets cat))"
  by (auto simp add: Dataset_filter_def dataset_key_def filter_empty_conv)

lemma dataset_key_set_keywords [simp]: "dataset_key (set_keywords kws d) = dataset_key d"
  by (simp add: dataset_key_def set_keywords_def)

lemma dataset_key_ows_url [simp]: "dataset_key (d\<lparr>ows_url := u\<rparr>) = dataset_key d"
  by (simp add: dataset_key_def)

lemma dataset_key_ds_id [simp]: "dataset_key (d\<lparr>ds_id := i\<rparr>) = dataset_key d"
  by (simp add: dataset_key_def)

lemma keys_Link_update_or_create [simp]:
  "datasets (Link_update_or_create l cat) = datasets cat"
  by (simp add: Link_update_or_create_def)

lemma keys_Dataset_update_ows_url [simp]:
  "map dataset_key (datasets (Dataset_update_ows_url i u cat)) = map dataset_key (datasets cat)"
  by (simp add: Dataset_update_ows_url_def comp_def if_distrib cong: if_cong)

lemma keys_resource_manager_update:
  "map dataset_key (datasets (snd (resource_manager_update d kws cat))) = map dataset_key (datasets cat)"
  by (simp add: resource_manager_update_def comp_def if_distrib cong: if_cong)

lemma keys_sta_create_dataset:
  "map dataset_key (datasets (snd (sta_create_dataset svc f a p cat))) =
     map dataset_key (datasets cat) @ [(rf_name f, rf_store f, rf_workspace f)]"
  by (simp add: sta_create_dataset_def resource_manager_create_def resource_manager_update_def
        resource_manager_set_permissions_def Let_def comp_def if_distrib dataset_key_def set_keywords_def
        cong: if_cong)

lemma keys_sos_create_dataset:
  "map dataset_key (datasets (snd (sos_create_dataset svc f a p cat))) =
     map dataset_key (datasets cat) @ [(rf_name f, rf_store f, rf_workspace f)]"
  by (simp add: sos_create_dataset_def resource_manager_create_def resource_manager_update_def
        resource_manager_set_permissions_def Let_def comp_def if_distrib dataset_key_def set_keywords_def
        cong: if_cong)

lemma keys_sta_link [simp]:
  "datasets (sta_create_dataset_service_link d cat) = datasets cat"
  by (simp add: sta_create_dataset_service_link_def Let_def)

lemma keys_sos_link:
  "map dataset_key (datasets (snd (sos_create_dataset_service_link svc d cat))) = map dataset_key (datasets cat)"
  by (auto simp add: sos_create_dataset_service_link_def Let_def split: sum.splits option.splits)

lemma sta_harvest_keys:
  assumes "sta_harvest_resource collab lib conf remote h rid svc cat = (Inr (), cat')"
  shows "\<exists>dataset_meta f.
           sta_get_resource lib remote h rid = Inr dataset_meta \<and>
           sta_get_indexed_dataset_fields collab lib remote h dataset_meta = Inr f \<and>
           Dataset_filter cat (rf_name f) (rf_store f) (rf_workspace f) = [] \<and>
           map dataset_key (datasets cat') = map dataset_key (datasets cat) @ [(rf_name f, rf_store f, rf_workspace f)]"
proof -
  from assms obtain dataset_meta where m: "sta_get_resource lib remote h rid = Inr dataset_meta"
    by (auto simp add: sta_harvest_resource_def split: sum.splits)
  from assms m obtain f where f: "sta_get_indexed_dataset_fields collab lib remote h dataset_meta = Inr f"
    by (auto simp add: sta_harvest_resource_def split: sum.splits)
  from assms m f have none: "Dataset_filter cat (rf_name f) (rf_store f) (rf_workspace f) = []"
    by (auto simp add: sta_harvest_resource_def split: if_splits)
  from assms m f none have
    "cat' = sta_create_dataset_service_link
              (fst (sta_create_dataset svc f (\<not> (RESOURCE_PUBLISHING conf \<or> ADMIN_MODERATE_UPLOADS conf))
                      (\<not> (RESOURCE_PUBLISHING conf \<or> ADMIN_MODERATE_UPLOADS conf)) cat))
              (snd (sta_create_dataset svc f (\<not> (RESOURCE_PUBLISHING conf \<or> ADMIN_MODERATE_UPLOADS conf))
                      (\<not> (RESOURCE_PUBLISHING conf \<or> ADMIN_MODERATE_UPLOADS conf)) cat))"
    by (simp add: sta_harvest_resource_def Let_def split_beta)
  then have "map dataset_key (datasets cat') =
               map dataset_key (datasets cat) @ [(rf_name f, rf_store f, rf_workspace f)]"
    by (simp add: keys_sta_create_dataset)
  with m f none show ?thesis by blast
qed

lemma sos_harvest_keys:
  assumes "sos_harvest_resource collab lib sc conf h rid svc cat = (Inr (), cat')"
  shows "\<exists>off f.
           sos_get_resource lib sc h rid = Inr off \<and>
           sos_get_indexed_dataset_fields collab h off = Inr f \<and>
           Dataset_filter cat (rf_name f) (rf_store f) (rf_workspace f) = [] \<and>
           map dataset_key (datasets cat') = map dataset_key (datasets cat) @ [(rf_name f, rf_store f, rf_workspace f)]"
proof -
  from assms obtain off where m: "sos_get_resource lib sc h rid = Inr off"
    by (auto simp add: sos_harvest_resource_def split: sum.splits)
  from assms m obtain f where f: "sos_get_indexed_dataset_fields collab h off = Inr f"
    by (auto simp add: sos_harvest_resource_def split: sum.splits)
  from assms m f have none: "Dataset_filter cat (rf_name f) (rf_store f) (rf_workspace f) = []"
    by (auto simp add: sos_harvest_resource_def split: if_splits)
  from assms m f none have
    "cat' = snd (sos_create_dataset_service_link svc
              (fst (sos_create_dataset svc f (\<not> (RESOURCE_PUBLISHING conf \<or> ADMIN_MODERATE_UPLOADS conf))
                      (\<not> (RESOURCE_PUBLISHING conf \<or> ADMIN_MODERATE_UPLOADS conf)) cat))
              (snd (sos_create_dataset svc f (\<not> (RESOURCE_PUBLISHING conf \<or> ADMIN_MODERATE_UPLOADS conf))
                      (\<not> (RESOURCE_PUBLISHING conf \<or> ADMIN_MODERATE_UPLOADS conf)) cat)))"
    by (simp add: sos_harvest_resource_def Let_def split_beta)
  then have "map dataset_key (datasets cat') =
               map dataset_key (datasets cat) @ [(rf_name f, rf_store f, rf_workspace f)]"
    by (simp add: keys_sos_link keys_sos_create_dataset)
  with m f none show ?thesis by blast
qed

lemma sta_harvest_again:
  assumes "sta_get_resource lib remote h rid = Inr dataset_meta"
    and "sta_get_indexed_dataset_fields collab lib remote h dataset_meta = Inr f"
    and "(rf_name f, rf_store f, rf_workspace f) \<in> set (map dataset_key (datasets cat))"
  shows "sta_harvest_resource collab lib conf remote h rid svc cat = (Inl (AlreadyHarvested rid), cat)"
  using assms by (simp add: sta_harvest_resource_def Dataset_filter_nonempty)

lemma sos_harvest_again:
  assumes "sos_get_resource lib sc h rid = Inr off"
    and "sos_get_indexed_dataset_fields collab h off = Inr f"
    and "(rf_name f, rf_store f, rf_workspace f) \<in> set (map dataset_key (datasets cat))"
  shows "sos_harvest_resource collab lib sc conf h rid svc cat = (Inl (AlreadyHarvested rid), cat)"
  using assms by (simp add: sos_harvest_resource_def Dataset_filter_nonempty)

text \<open>
  C2. Harvesting a resource twice, the remote endpoint, the store and the workspace being
  the same: when the first call succeeds, it found no dataset under the triple (name, store,
  workspace) of the normalized record and leaves one in the catalog, and the second call,
  on the catalog the first one left, raises the duplicate error that names the resource id
  and changes nothing. For the SOS and for the STA handler.
\<close>

theorem harvest_twice_duplicate:
  "(sos_harvest_resource collab lib sc conf h rid svc cat = (Inr (), cat') \<longrightarrow>
      (\<exists>off f. sos_get_resource lib sc h rid = Inr off \<and>
         sos_get_indexed_dataset_fields collab h off = Inr f \<and>
         Dataset_filter cat (rf_name f) (rf_store f) (rf_workspace f) = [] \<and>
         Dataset_filter cat' (rf_name f) (rf_store f) (rf_workspace f) \<noteq> []) \<and>
      sos_harvest_resource collab lib sc conf h rid svc cat' = (Inl (AlreadyHarvested rid), cat'))
   \<and>
   (sta_harvest_resource collab lib conf remote h rid svc cat = (Inr (), cat') \<longrightarrow>
      (\<exists>dataset_meta f. sta_get_resource lib remote h rid = Inr dataset_meta \<and>
         sta_get_indexed_dataset_fields collab lib remote h dataset_meta = Inr f \<and>
         Dataset_filter cat (rf_name f) (rf_store f) (rf_workspace f) = [] \<and>
         Dataset_filter cat' (rf_name f) (rf_store f) (rf_workspace f) \<noteq> []) \<and>
      sta_harvest_resource collab lib conf remote h rid svc cat' = (Inl (AlreadyHarvested rid), cat'))"
proof (intro conjI impI)
  assume first: "sos_harvest_resource collab lib sc conf h rid svc cat = (Inr (), cat')"
  from sos_harvest_keys[OF first] obtain off f where
    r: "sos_get_resource lib sc h rid = Inr off"
    and f: "sos_get_indexed_dataset_fields collab h off = Inr f"
    and none: "Dataset_filter cat (rf_name f) (rf_store f) (rf_workspace f) = []"
    and keys: "map dataset_key (datasets cat') = map dataset_key (datasets cat) @ [(rf_name f, rf_store f, rf_workspace f)]"
    by blast
  from keys have entry: "(rf_name f, rf_store f, rf_workspace f) \<in> set (map dataset_key (datasets cat'))"
    by simp
  then have "Dataset_filter cat' (rf_name f) (rf_store f) (rf_workspace f) \<noteq> []"
    by (simp only: Dataset_filter_nonempty)
  with r f none
  show "\<exists>off f. sos_get_resource lib sc h rid = Inr off \<and>
         sos_get_indexed_dataset_fields collab h off = Inr f \<and>
         Dataset_filter cat (rf_name f) (rf_store f) (rf_workspace f) = [] \<and>
         Dataset_filter cat' (rf_name f) (rf_store f) (rf_workspace f) \<noteq> []"
    by blast
  from sos_harvest_again[OF r f entry]
  show "sos_harvest_resource collab lib sc conf h rid svc cat' = (Inl (AlreadyHarvested rid), cat')" .
next
  assume first: "sta_harvest_resource collab lib conf remote h rid svc cat = (Inr (), cat')"
  from sta_harvest_keys[OF first] obtain dataset_meta f where
    r: "sta_get_resource lib remote h rid = Inr dataset_meta"
    and f: "sta_get_indexed_dataset_fields collab lib remote h dataset_meta = Inr f"
    and none: "Dataset_filter cat (rf_name f) (rf_store f) (rf_workspace f) = []"
    and keys: "map dataset_key (datasets cat') = map dataset_key (datasets cat) @ [(rf_name f, rf_store f, rf_workspace f)]"
    by blast
  from keys have entry: "(rf_name f, rf_store f, rf_workspace f) \<in> set (map dataset_key (datasets cat'))"
    by simp
  then have "Dataset_filter cat' (rf_name f) (rf_store f) (rf_workspace f) \<noteq> []"
    by (simp only: Dataset_filter_nonempty)
  with r f none
  show "\<exists>dataset_meta f. sta_get_resource lib remote h rid = Inr dataset_meta \<and>
         sta_get_indexed_dataset_fields collab lib remote h dataset_meta = Inr f \<and>
         Dataset_filter cat (rf_name f) (rf_store f) (rf_workspace f) = [] \<and>
         Dataset_filter cat' (rf_name f) (rf_store f) (rf_workspace f) \<noteq> []"
    by blast
  from sta_harvest_again[OF r f entry]
  show "sta_harvest_resource collab lib conf remote h rid svc cat' = (Inl (AlreadyHarvested rid), cat')" .
qed

theorem harvest_twice_duplicate_witness:
  "fst (sos_harvest_resource example_collaborators py_urllib example_sos example_settings
          example_sos_handler ''off1'' example_service empty_catalog) = Inr ()
   \<and> sos_harvest_resource example_collaborators py_urllib example_sos example_settings
          example_sos_handler ''off1'' example_service
          (snd (sos_harvest_resource example_collaborators py_urllib example_sos example_settings
                  example_sos_handler ''off1'' example_service empty_catalog))
       = (Inl (AlreadyHarvested ''off1''),
          snd (sos_harvest_resource example_collaborators py_urllib example_sos example_settings
                  example_sos_handler ''off1'' example_service empty_catalog))
   \<and> fst (sta_harvest_resource example_collaborators py_urllib example_settings example_sta_remote
          example_sta_handler ''1'' example_service empty_catalog) = Inr ()
   \<and> sta_harvest_resource example_collaborators py_urllib example_settings example_sta_remote
          example_sta_handler ''1'' example_service
          (snd (sta_harvest_resource example_collaborators py_urllib example_settings example_sta_remote
                  example_sta_handler ''1'' example_service empty_catalog))
       = (Inl (AlreadyHarvested ''1''),
          snd (sta_harvest_resource example_collaborators py_urllib example_settings example_sta_remote
                  example_sta_handler ''1'' example_service empty_catalog))"
proof -
  have sos: "fst (sos_harvest_resource example_collaborators py_urllib example_sos example_settings
          example_sos_handler ''off1'' example_service empty_catalog) = Inr ()"
    by code_simp
  have sta: "fst (sta_harvest_resource example_collaborators py_urllib example_settings example_sta_remote
          example_sta_handler ''1'' example_service empty_catalog) = Inr ()"
    by code_simp
  from sos have sos': "sos_harvest_resource example_collaborators py_urllib example_sos example_settings
          example_sos_handler ''off1'' example_service empty_catalog
        = (Inr (), snd (sos_harvest_resource example_collaborators py_urllib example_sos example_settings
          example_sos_handler ''off1'' example_service empty_catalog))"
    by (metis prod.collapse)
  from sta have sta': "sta_harvest_resource example_collaborators py_urllib example_settings example_sta_remote
          example_sta_handler ''1'' example_service empty_catalog
        = (Inr (), snd (sta_harvest_resource example_collaborators py_urllib example_settings example_sta_remote
          example_sta_handler ''1'' example_service empty_catalog))"
    by (metis prod.collapse)
  from harvest_twice_duplicate[THEN conjunct1, rule_format, OF sos']
       harvest_twice_duplicate[THEN conjunct2, rule_format, OF sta'] sos sta
  show ?thesis by blast
qed


text \<open>
  C5. A record whose box has fewer than four coordinates: the harvest raises the invalid
  box error and returns the catalog as it was, datasets and links. SOS: the box of the
  offering. STA: the box that \<open>decimal_encode\<close> makes of a non-null \<open>observedArea\<close>.
\<close>

theorem invalid_bbox_no_side_effects:
  "(sos_get_resource lib sc h rid = Inr off \<and> off_bbox off = Some b \<and> length b < 4 \<longrightarrow>
      sos_harvest_resource collab lib sc conf h rid svc cat = (Inl (BBoxNotValid (JArr (map JNum b))), cat))
   \<and>
   (sta_get_resource lib remote h rid = Inr dataset_meta \<and>
    getitem dataset_meta ''observedArea'' = Inr observedArea \<and> observedArea \<noteq> JNull \<and>
    decimal_encode collab observedArea = Inr bbox \<and> bbox \<noteq> JNull \<and>
    py_len bbox = Inr n \<and> n < 4 \<longrightarrow>
      sta_harvest_resource collab lib conf remote h rid svc cat = (Inl (BBoxNotValid bbox), cat))"
  by (simp add: sos_harvest_resource_def sos_get_indexed_dataset_fields_def
        sta_harvest_resource_def sta_get_indexed_dataset_fields_def sta_get_bbox_provided)

theorem invalid_bbox_no_side_effects_witness:
  "sos_harvest_resource example_collaborators py_urllib example_sos example_settings
      example_sos_handler ''off2'' example_service empty_catalog
     = (Inl (BBoxNotValid (JArr [JNum 1, JNum 2])), empty_catalog)
   \<and> sta_harvest_resource example_collaborators py_urllib example_settings example_sta_remote
      example_sta_handler ''2'' example_service empty_catalog
     = (Inl (BBoxNotValid (JArr [JNum 1, JNum 2])), empty_catalog)"
proof -
  let ?meta = "datastream ''2'' [(''observedArea'', JArr [JNum 1, JNum 2])]"
  have r1: "sos_get_resource py_urllib example_sos example_sos_handler ''off2'' = Inr (example_offering ''off2'' [1, 2])"
    by code_simp
  have b1: "off_bbox (example_offering ''off2'' [1, 2]) = Some [1, 2]" "length [1, 2 :: rat] < 4"
    by (simp_all add: example_offering_def)
  have r2: "sta_get_resource py_urllib example_sta_remote example_sta_handler ''2'' = Inr ?meta"
    by code_simp
  have o2: "getitem ?meta ''observedArea'' = Inr (JArr [JNum 1, JNum 2])"
    by code_simp
  have d2: "decimal_encode example_collaborators (JArr [JNum 1, JNum 2]) = Inr (JArr [JNum 1, JNum 2])"
    by (simp add: example_collaborators_def)
  have l2: "py_len (JArr [JNum 1, JNum 2]) = Inr 2" by simp
  from invalid_bbox_no_side_effects[THEN conjunct1, rule_format, of py_urllib example_sos example_sos_handler
         "''off2''" "example_offering ''off2'' [1, 2]" "[1, 2]"] r1 b1
  have s1: "sos_harvest_resource example_collaborators py_urllib example_sos example_settings
      example_sos_handler ''off2'' example_service empty_catalog
     = (Inl (BBoxNotValid (JArr (map JNum [1, 2]))), empty_catalog)"
    by blast
  from invalid_bbox_no_side_effects[THEN conjunct2, rule_format, of py_urllib example_sta_remote example_sta_handler
         "''2''" ?meta "JArr [JNum 1, JNum 2]" example_collaborators "JArr [JNum 1, JNum 2]" 2] r2 o2 d2 l2
  have s2: "sta_harvest_resource example_collaborators py_urllib example_settings example_sta_remote
      example_sta_handler ''2'' example_service empty_catalog
     = (Inl (BBoxNotValid (JArr [JNum 1, JNum 2])), empty_catalog)"
    by simp
  from s1 s2 show ?thesis by simp
qed

section \<open>The client factories\<close>

lemma str_contains_prefix: "str_contains sub (sub @ b)"
proof (cases "sub @ b")
  case Nil
  then show ?thesis by simp
next
  case (Cons x xs)
  have "take (length sub) (sub @ b) = sub" by simp
  then have "take (length sub) (x # xs) = sub" unfolding Cons .
  then have "str_contains sub (x # xs)" by simp
  then show ?thesis unfolding Cons .
qed

lemma str_contains_Cons: "str_contains sub b \<Longrightarrow> str_contains sub (x # b)"
  by (cases b) auto

lemma str_contains_right: "str_contains sub b \<Longrightarrow> str_contains sub (a @ b)"
  by (induction a) (simp_all add: str_contains_Cons del: str_contains.simps)

lemma str_contains_middle: "str_contains sub (a @ sub @ b)"
  by (rule str_contains_right) (rule str_contains_prefix)

lemma sta_message_names:
  "str_contains version (''The STA version ('' @ version @ '') you requested is not implemented. Please use 1.0 or 1.1.'')"
  "str_contains ''1.1'' (''The STA version ('' @ version @ '') you requested is not implemented. Please use 1.0 or 1.1.'')"
proof -
  show "str_contains version (''The STA version ('' @ version @ '') you requested is not implemented. Please use 1.0 or 1.1.'')"
    by (rule str_contains_middle)
  have "str_contains ''1.1'' ('') you requested is not implemented. Please use 1.0 or '' @ ''1.1'' @ ''.'')"
    by (rule str_contains_middle)
  then have "str_contains ''1.1'' ('') you requested is not implemented. Please use 1.0 or 1.1.'')"
    by simp
  then have "str_contains ''1.1'' ((''The STA version ('' @ version) @ '') you requested is not implemented. Please use 1.0 or 1.1.'')"
    by (rule str_contains_right)
  then show "str_contains ''1.1'' (''The STA version ('' @ version @ '') you requested is not implemented. Please use 1.0 or 1.1.'')"
    by simp
qed

lemma sos_message_names:
  "str_contains version (''The SOS version ('' @ version @ '') you requested is not implemented. Please use 1.0.0 or 2.0.0.'')"
  "str_contains ''1.0.0'' (''The SOS version ('' @ version @ '') you requested is not implemented. Please use 1.0.0 or 2.0.0.'')"
  "str_contains ''2.0.0'' (''The SOS version ('' @ version @ '') you requested is not implemented. Please use 1.0.0 or 2.0.0.'')"
proof -
  show "str_contains version (''The SOS version ('' @ version @ '') you requested is not implemented. Please use 1.0.0 or 2.0.0.'')"
    by (rule str_contains_middle)
  have "str_contains ''1.0.0'' ('') you requested is not implemented. Please use '' @ ''1.0.0'' @ '' or 2.0.0.'')"
    by (rule str_contains_middle)
  then have "str_contains ''1.0.0'' ('') you requested is not implemented. Please use 1.0.0 or 2.0.0.'')"
    by simp
  then have "str_contains ''1.0.0'' ((''The SOS version ('' @ version) @ '') you requested is not implemented. Please use 1.0.0 or 2.0.0.'')"
    by (rule str_contains_right)
  then show "str_contains ''1.0.0'' (''The SOS version ('' @ version @ '') you requested is not implemented. Please use 1.0.0 or 2.0.0.'')"
    by simp
  have "str_contains ''2.0.0'' ('') you requested is not implemented. Please use 1.0.0 or '' @ ''2.0.0'' @ ''.'')"
    by (rule str_contains_middle)
  then have "str_contains ''2.0.0'' ('') you requested is not implemented. Please use 1.0.0 or 2.0.0.'')"
    by simp
  then have "str_contains ''2.0.0'' ((''The SOS version ('' @ version) @ '') you requested is not implemented. Please use 1.0.0 or 2.0.0.'')"
    by (rule str_contains_right)
  then show "str_contains ''2.0.0'' (''The SOS version ('' @ version @ '') you requested is not implemented. Please use 1.0.0 or 2.0.0.'')"
    by simp
qed

text \<open>What the two factories dispatch on: the version, the client URL and the base URL.\<close>

lemma SensorThingsService_no_proxy:
  assumes "proxy_base = None \<or> proxy_base = Some []"
  shows "SensorThingsService lib u version proxy_base =
           (if version = ''1.1'' then andthen (SensorThingsService_1_1 u) (\<lambda>c. Inr (u, c))
            else Inl (NotImplementedError
                   (''The STA version ('' @ version @ '') you requested is not implemented. Please use 1.0 or 1.1.'')))"
  using assms by (auto simp add: SensorThingsService_def)

lemma SensorThingsService_proxy:
  assumes "p \<noteq> []" and "startswith u ''http''" and "urlparse lib u = Inr parsed"
  shows "SensorThingsService lib u version (Some p) =
           (if version = ''1.1'' then
              andthen (SensorThingsService_1_1 (p @ ''?url='' @ quote lib (urlunparse lib (parsed\<lparr>query := []\<rparr>))))
                (\<lambda>c. Inr (urlunparse lib (parsed\<lparr>query := []\<rparr>), c))
            else Inl (NotImplementedError
                   (''The STA version ('' @ version @ '') you requested is not implemented. Please use 1.0 or 1.1.'')))"
  using assms by (simp add: SensorThingsService_def get_proxified_sta_url_def Let_def)

lemma SensorObservationService_no_proxy:
  assumes "proxy_base = None \<or> proxy_base = Some []" and "clean_ows_url sc u = Inr clean_url"
  shows "SensorObservationService sc u version proxy_base =
           (if version = ''1.0.0'' then
              andthen (SensorObservationService_1_0_0 sc clean_url version) (\<lambda>c. Inr (clean_url, c))
            else if version = ''2.0.0'' \<or> version = ''2.0'' then
              andthen (sos_2_0_0 sc clean_url version) (\<lambda>c. Inr (clean_url, c))
            else Inl (NotImplementedError
                   (''The SOS version ('' @ version @ '') you requested is not implemented. Please use 1.0.0 or 2.0.0.'')))"
  using assms by (auto simp add: SensorObservationService_def)

lemma SensorObservationService_proxy:
  assumes "p \<noteq> []" and "get_proxified_ows_url sc u version p = Inr (clean_version, proxified_url, base_ows_url)"
  shows "SensorObservationService sc u version (Some p) =
           (if clean_version = ''1.0.0'' then
              andthen (SensorObservationService_1_0_0 sc proxified_url clean_version) (\<lambda>c. Inr (base_ows_url, c))
            else if clean_version = ''2.0.0'' \<or> clean_version = ''2.0'' then
              andthen (sos_2_0_0 sc proxified_url clean_version) (\<lambda>c. Inr (base_ows_url, c))
            else Inl (NotImplementedError
                   (''The SOS version ('' @ clean_version @ '') you requested is not implemented. Please use 1.0.0 or 2.0.0.'')))"
  using assms by (auto simp add: SensorObservationService_def)

lemma split_on_no_separator: "c \<notin> set s \<Longrightarrow> split_on c s = [s]"
  by (induction s) auto

lemma split_on_one_separator:
  "c \<notin> set a \<Longrightarrow> c \<notin> set b \<Longrightarrow> split_on c (a @ c # b) = [a, b]"
  by (induction a) (auto simp add: split_on_no_separator)

lemma SensorThingsService_1_1_without_query:
  "CHR ''?'' \<notin> set u \<Longrightarrow>
     SensorThingsService_1_1 u = Inr \<lparr>client_url = rstrip CHR ''/'' u @ ''/'', url_query_string = None\<rparr>"
  by (simp add: SensorThingsService_1_1_def BaseSensorThingsService_def)

lemma SensorThingsService_1_1_with_query:
  "CHR ''?'' \<notin> set a \<Longrightarrow> CHR ''?'' \<notin> set b \<Longrightarrow>
     SensorThingsService_1_1 (a @ ''?'' @ b) = Inr \<lparr>client_url = a, url_query_string = Some b\<rparr>"
  by (simp add: SensorThingsService_1_1_def BaseSensorThingsService_def split_on_one_separator)

text \<open>
  C6. A version outside the supported set (SOS: 1.0.0, 2.0.0, 2.0; STA: 1.1) makes the
  factory raise \<open>NotImplementedError\<close>, with a message that contains the version and the
  supported versions, and no client is built. For a supported version the factory returns
  the client that the constructor of that version builds. Without a proxy the version is the
  one requested; with a proxy the SOS factory dispatches on the version that
  \<open>get_proxified_ows_url\<close> hands back, and the STA factory on the requested one, for a URL
  that starts with \<open>http\<close> and that \<open>urlparse\<close> accepts.
\<close>

theorem unsupported_version_rejected:
  "((proxy_base = None \<or> proxy_base = Some []) \<and> clean_ows_url sc u = Inr clean_url \<longrightarrow>
      (version \<notin> {''1.0.0'', ''2.0.0'', ''2.0''} \<longrightarrow>
         (\<exists>msg. SensorObservationService sc u version proxy_base = Inl (NotImplementedError msg) \<and>
                str_contains version msg \<and> str_contains ''1.0.0'' msg \<and> str_contains ''2.0.0'' msg)) \<and>
      (version = ''1.0.0'' \<and> SensorObservationService_1_0_0 sc clean_url version = Inr c \<longrightarrow>
         SensorObservationService sc u version proxy_base = Inr (clean_url, c)) \<and>
      (version \<in> {''2.0.0'', ''2.0''} \<and> sos_2_0_0 sc clean_url version = Inr c \<longrightarrow>
         SensorObservationService sc u version proxy_base = Inr (clean_url, c)))
   \<and>
   (p \<noteq> [] \<and> get_proxified_ows_url sc u version p = Inr (clean_version, proxified_url, base_ows_url) \<longrightarrow>
      (clean_version \<notin> {''1.0.0'', ''2.0.0'', ''2.0''} \<longrightarrow>
         (\<exists>msg. SensorObservationService sc u version (Some p) = Inl (NotImplementedError msg) \<and>
                str_contains clean_version msg \<and> str_contains ''1.0.0'' msg \<and> str_contains ''2.0.0'' msg)) \<and>
      (clean_version = ''1.0.0'' \<and> SensorObservationService_1_0_0 sc proxified_url clean_version = Inr c \<longrightarrow>
         SensorObservationService sc u version (Some p) = Inr (base_ows_url, c)) \<and>
      (clean_version \<in> {''2.0.0'', ''2.0''} \<and> sos_2_0_0 sc proxified_url clean_version = Inr c \<longrightarrow>
         SensorObservationService sc u version (Some p) = Inr (base_ows_url, c)))
   \<and>
   ((proxy_base = None \<or> proxy_base = Some []) \<or>
    (\<exists>q parsed. proxy_base = Some q \<and> startswith u ''http'' \<and> urlparse lib u = Inr parsed) \<longrightarrow>
      (version \<noteq> ''1.1'' \<longrightarrow>
         (\<exists>msg. SensorThingsService lib u version proxy_base = Inl (NotImplementedError msg) \<and>
                str_contains version msg \<and> str_contains ''1.1'' msg)))
   \<and>
   ((proxy_base = None \<or> proxy_base = Some []) \<and> version = ''1.1'' \<and> SensorThingsService_1_1 u = Inr c' \<longrightarrow>
      SensorThingsService lib u version proxy_base = Inr (u, c'))"
proof (intro conjI impI)
  assume v: "version \<noteq> ''1.1''"
    and pb: "(proxy_base = None \<or> proxy_base = Some []) \<or>
         (\<exists>q parsed. proxy_base = Some q \<and> startswith u ''http'' \<and> urlparse lib u = Inr parsed)"
  have "SensorThingsService lib u version proxy_base =
           Inl (NotImplementedError
                  (''The STA version ('' @ version @ '') you requested is not implemented. Please use 1.0 or 1.1.''))"
  proof (cases "proxy_base = None \<or> proxy_base = Some []")
    case True
    with v show ?thesis by (simp only: SensorThingsService_no_proxy if_False)
  next
    case False
    with pb obtain q parsed where q: "proxy_base = Some q" "q \<noteq> []"
      and u: "startswith u ''http''" "urlparse lib u = Inr parsed"
      by auto
    from SensorThingsService_proxy[OF q(2) u, of version] v q(1) show ?thesis
      by (simp only: if_False)
  qed
  then show "\<exists>msg. SensorThingsService lib u version proxy_base = Inl (NotImplementedError msg) \<and>
                str_contains version msg \<and> str_contains ''1.1'' msg"
    using sta_message_names by blast
next
  assume "(proxy_base = None \<or> proxy_base = Some []) \<and> clean_ows_url sc u = Inr clean_url"
    and "version \<notin> {''1.0.0'', ''2.0.0'', ''2.0''}"
  then have "SensorObservationService sc u version proxy_base =
           Inl (NotImplementedError
                  (''The SOS version ('' @ version @ '') you requested is not implemented. Please use 1.0.0 or 2.0.0.''))"
    by (simp add: SensorObservationService_no_proxy)
  then show "\<exists>msg. SensorObservationService sc u version proxy_base = Inl (NotImplementedError msg) \<and>
                str_contains version msg \<and> str_contains ''1.0.0'' msg \<and> str_contains ''2.0.0'' msg"
    using sos_message_names by blast
next
  assume "p \<noteq> [] \<and> get_proxified_ows_url sc u version p = Inr (clean_version, proxified_url, base_ows_url)"
    and "clean_version \<notin> {''1.0.0'', ''2.0.0'', ''2.0''}"
  then have "SensorObservationService sc u version (Some p) =
           Inl (NotImplementedError
                  (''The SOS version ('' @ clean_version @ '') you requested is not implemented. Please use 1.0.0 or 2.0.0.''))"
    by (simp add: SensorObservationService_proxy)
  then show "\<exists>msg. SensorObservationService sc u version (Some p) = Inl (NotImplementedError msg) \<and>
                str_contains clean_version msg \<and> str_contains ''1.0.0'' msg \<and> str_contains ''2.0.0'' msg"
    using sos_message_names by blast
qed (auto simp add: SensorObservationService_no_proxy SensorObservationService_proxy SensorThingsService_no_proxy)

theorem unsupported_version_rejected_witness:
  "(\<exists>msg. SensorObservationService example_sos ''http://sos/service'' ''3.0'' None = Inl (NotImplementedError msg) \<and>
          str_contains ''3.0'' msg \<and> str_contains ''1.0.0'' msg \<and> str_contains ''2.0.0'' msg)
   \<and> SensorObservationService example_sos ''http://sos/service'' ''2.0'' None
        = Inr (''http://sos/service'', example_sos_client)
   \<and> SensorObservationService example_sos ''http://sos/service'' ''1.0.0'' (Some ''http://geonode/proxy/'')
        = Inr (''http://sos/service'', example_sos_client)
   \<and> (\<exists>msg. SensorThingsService py_urllib ''http://sta'' ''1.0'' None = Inl (NotImplementedError msg) \<and>
          str_contains ''1.0'' msg \<and> str_contains ''1.1'' msg)
   \<and> SensorThingsService py_urllib ''http://sta'' ''1.1'' None
        = Inr (''http://sta'', \<lparr>client_url = ''http://sta/'', url_query_string = None\<rparr>)"
proof -
  have a: "clean_ows_url example_sos ''http://sos/service'' = Inr ''http://sos/service''"
    by (simp add: example_sos_def)
  have b: "sos_2_0_0 example_sos ''http://sos/service'' ''2.0'' = Inr example_sos_client"
    by (simp add: example_sos_def)
  have c: "get_proxified_ows_url example_sos ''http://sos/service'' ''1.0.0'' ''http://geonode/proxy/''
             = Inr (''1.0.0'', ''http://geonode/proxy/?url=http%3A%2F%2Fsos%2Fservice'', ''http://sos/service'')"
    by code_simp
  have d: "SensorObservationService_1_0_0 example_sos ''http://geonode/proxy/?url=http%3A%2F%2Fsos%2Fservice'' ''1.0.0''
             = Inr example_sos_client"
    by (simp add: example_sos_def)
  have e: "SensorThingsService_1_1 ''http://sta'' = Inr \<lparr>client_url = ''http://sta/'', url_query_string = None\<rparr>"
    by code_simp
  note t = unsupported_version_rejected
  have 1: "\<exists>msg. SensorObservationService example_sos ''http://sos/service'' ''3.0'' None = Inl (NotImplementedError msg) \<and>
          str_contains ''3.0'' msg \<and> str_contains ''1.0.0'' msg \<and> str_contains ''2.0.0'' msg"
    using t[THEN conjunct1, rule_format, THEN conjunct1, rule_format,
            of None example_sos "''http://sos/service''" "''http://sos/service''" "''3.0''"] a
    by simp
  have 2: "SensorObservationService example_sos ''http://sos/service'' ''2.0'' None
        = Inr (''http://sos/service'', example_sos_client)"
    using t[THEN conjunct1, rule_format, THEN conjunct2, THEN conjunct2, rule_format,
            of None example_sos "''http://sos/service''" "''http://sos/service''" "''2.0''" example_sos_client] a b
    by simp
  have 3: "SensorObservationService example_sos ''http://sos/service'' ''1.0.0'' (Some ''http://geonode/proxy/'')
        = Inr (''http://sos/service'', example_sos_client)"
    using t[THEN conjunct2, THEN conjunct1, rule_format, THEN conjunct2, THEN conjunct1, rule_format,
            of "''http://geonode/proxy/''" example_sos "''http://sos/service''" "''1.0.0''" "''1.0.0''"
               "''http://geonode/proxy/?url=http%3A%2F%2Fsos%2Fservice''" "''http://sos/service''" example_sos_client] c d
    by simp
  have 4: "\<exists>msg. SensorThingsService py_urllib ''http://sta'' ''1.0'' None = Inl (NotImplementedError msg) \<and>
          str_contains ''1.0'' msg \<and> str_contains ''1.1'' msg"
    using t[THEN conjunct2, THEN conjunct2, THEN conjunct1, rule_format, rule_format,
            of None "''http://sta''" py_urllib "''1.0''"]
    by simp
  have 5: "SensorThingsService py_urllib ''http://sta'' ''1.1'' None
        = Inr (''http://sta'', \<lparr>client_url = ''http://sta/'', url_query_string = None\<rparr>)"
    using t[THEN conjunct2, THEN conjunct2, THEN conjunct2, rule_format,
            of None "''1.1''" "''http://sta''" "\<lparr>client_url = ''http://sta/'', url_query_string = None\<rparr>" py_urllib] e
    by simp
  from 1 2 3 4 5 show ?thesis by blast
qed

text \<open>
  C7. For a supported version: without a proxy the client is built on the URL itself (SOS:
  on the URL cleaned by \<open>clean_ows_url\<close>) and that same URL is returned as the base URL;
  with a proxy the client is built on the proxy-rewritten URL and the base URL returned
  is the unproxied one, in which the proxy base does not occur: for STA the URL without its
  query, rebuilt by \<open>urlunparse\<close>, and for SOS the base URL of \<open>get_proxified_ows_url\<close>.
\<close>

theorem factory_client_and_base_url:
  "((proxy_base = None \<or> proxy_base = Some []) \<longrightarrow>
      SensorThingsService lib u ''1.1'' proxy_base =
        andthen (SensorThingsService_1_1 u) (\<lambda>c. Inr (u, c)))
   \<and>
   (p \<noteq> [] \<and> startswith u ''http'' \<and> urlparse lib u = Inr parsed \<longrightarrow>
      SensorThingsService lib u ''1.1'' (Some p) =
        andthen (SensorThingsService_1_1 (p @ ''?url='' @ quote lib (urlunparse lib (parsed\<lparr>query := []\<rparr>))))
          (\<lambda>c. Inr (urlunparse lib (parsed\<lparr>query := []\<rparr>), c)))
   \<and>
   ((proxy_base = None \<or> proxy_base = Some []) \<and> clean_ows_url sc u = Inr clean_url \<and>
    version \<in> {''1.0.0'', ''2.0.0'', ''2.0''} \<longrightarrow>
      SensorObservationService sc u version proxy_base =
        andthen ((if version = ''1.0.0'' then SensorObservationService_1_0_0 sc else sos_2_0_0 sc) clean_url version)
          (\<lambda>c. Inr (clean_url, c)))
   \<and>
   (p \<noteq> [] \<and> get_proxified_ows_url sc u version p = Inr (clean_version, proxified_url, base_ows_url) \<and>
    clean_version \<in> {''1.0.0'', ''2.0.0'', ''2.0''} \<longrightarrow>
      SensorObservationService sc u version (Some p) =
        andthen ((if clean_version = ''1.0.0'' then SensorObservationService_1_0_0 sc else sos_2_0_0 sc)
                   proxified_url clean_version)
          (\<lambda>c. Inr (base_ows_url, c)))"
  by (auto simp add: SensorThingsService_no_proxy SensorThingsService_proxy
        SensorObservationService_no_proxy SensorObservationService_proxy)

theorem factory_client_and_base_url_witness:
  "SensorThingsService py_urllib ''http://sta/v1.1'' ''1.1'' None
     = Inr (''http://sta/v1.1'', \<lparr>client_url = ''http://sta/v1.1/'', url_query_string = None\<rparr>)
   \<and> SensorThingsService py_urllib ''http://sta/v1.1?token=abc'' ''1.1'' (Some ''http://geonode/proxy/'')
     = Inr (''http://sta/v1.1'',
            \<lparr>client_url = ''http://geonode/proxy/'', url_query_string = Some ''url=http%3A%2F%2Fsta%2Fv1.1''\<rparr>)
   \<and> SensorObservationService example_sos ''http://sos/service'' ''2.0.0'' None
     = Inr (''http://sos/service'', example_sos_client)
   \<and> SensorObservationService example_sos ''http://sos/service'' ''2.0.0'' (Some ''http://geonode/proxy/'')
     = Inr (''http://sos/service'', example_sos_client)"
proof -
  note t = factory_client_and_base_url
  have a: "SensorThingsService_1_1 ''http://sta/v1.1'' = Inr \<lparr>client_url = ''http://sta/v1.1/'', url_query_string = None\<rparr>"
    by code_simp
  have 1: "SensorThingsService py_urllib ''http://sta/v1.1'' ''1.1'' None
     = Inr (''http://sta/v1.1'', \<lparr>client_url = ''http://sta/v1.1/'', url_query_string = None\<rparr>)"
    using t[THEN conjunct1, rule_format, of None py_urllib "''http://sta/v1.1''"] a by simp
  have b: "startswith ''http://sta/v1.1?token=abc'' ''http''" by code_simp
  have c: "urlparse py_urllib ''http://sta/v1.1?token=abc''
             = Inr \<lparr>scheme = ''http'', netloc = ''sta'', path = ''/v1.1'', params = [], query = ''token=abc'', fragment = []\<rparr>"
    by code_simp
  have d: "urlunparse py_urllib (\<lparr>scheme = ''http'', netloc = ''sta'', path = ''/v1.1'', params = [],
              query = ''token=abc'', fragment = []\<rparr>\<lparr>query := []\<rparr>) = ''http://sta/v1.1''"
    by code_simp
  have e: "quote py_urllib ''http://sta/v1.1'' = ''http%3A%2F%2Fsta%2Fv1.1''" by code_simp
  have f: "SensorThingsService_1_1 (''http://geonode/proxy/'' @ ''?url='' @ ''http%3A%2F%2Fsta%2Fv1.1'')
             = Inr \<lparr>client_url = ''http://geonode/proxy/'', url_query_string = Some ''url=http%3A%2F%2Fsta%2Fv1.1''\<rparr>"
    by code_simp
  have 2: "SensorThingsService py_urllib ''http://sta/v1.1?token=abc'' ''1.1'' (Some ''http://geonode/proxy/'')
     = Inr (''http://sta/v1.1'',
            \<lparr>client_url = ''http://geonode/proxy/'', url_query_string = Some ''url=http%3A%2F%2Fsta%2Fv1.1''\<rparr>)"
    using t[THEN conjunct2, THEN conjunct1, rule_format,
            of "''http://geonode/proxy/''" "''http://sta/v1.1?token=abc''" py_urllib
               "\<lparr>scheme = ''http'', netloc = ''sta'', path = ''/v1.1'', params = [], query = ''token=abc'', fragment = []\<rparr>"]
          b c
    by (simp only: d e f andthen_Inr) simp
  have g: "clean_ows_url example_sos ''http://sos/service'' = Inr ''http://sos/service''"
    by (simp add: example_sos_def)
  have 3: "SensorObservationService example_sos ''http://sos/service'' ''2.0.0'' None
     = Inr (''http://sos/service'', example_sos_client)"
    using t[THEN conjunct2, THEN conjunct2, THEN conjunct1, rule_format,
            of None example_sos "''http://sos/service''" "''http://sos/service''" "''2.0.0''"] g
    by (simp add: example_sos_def)
  have h: "get_proxified_ows_url example_sos ''http://sos/service'' ''2.0.0'' ''http://geonode/proxy/''
             = Inr (''2.0.0'', ''http://geonode/proxy/?url=http%3A%2F%2Fsos%2Fservice'', ''http://sos/service'')"
    by code_simp
  have 4: "SensorObservationService example_sos ''http://sos/service'' ''2.0.0'' (Some ''http://geonode/proxy/'')
     = Inr (''http://sos/service'', example_sos_client)"
    using t[THEN conjunct2, THEN conjunct2, THEN conjunct2, rule_format,
            of "''http://geonode/proxy/''" example_sos "''http://sos/service''" "''2.0.0''" "''2.0.0''"
               "''http://geonode/proxy/?url=http%3A%2F%2Fsos%2Fservice''" "''http://sos/service''"] h
    by (simp add: example_sos_def)
  from 1 2 3 4 show ?thesis by blast
qed

section \<open>The keywords of a resource\<close>

lemma set_add_all_Nil [simp]: "set_add_all ks [] = ks"
  by (simp add: set_add_all_def)

lemma set_add_all_Cons [simp]: "set_add_all ks (x # xs) = set_add_all (set_add ks x) xs"
  by (simp add: set_add_all_def)

lemma set_set_add_all: "set (set_add_all ks xs) = set ks \<union> set xs"
  by (induction xs arbitrary: ks) (auto simp add: set_add_def)

lemma distinct_set_add_all: "distinct ks \<Longrightarrow> distinct (set_add_all ks xs)"
  by (induction xs arbitrary: ks) (auto simp add: set_add_def)

lemma sos_keywords_union:
  "distinct (sos_get_keywords_for_resource off) \<and>
   set (sos_get_keywords_for_resource off) =
     set (observed_properties off) \<union> set (procedures off) \<union> set (features_of_interest off)"
  by (simp add: sos_get_keywords_for_resource_def Let_def set_set_add_all distinct_set_add_all)

lemma set_update_Inr:
  assumes "set_update ks xs = Inr ks'"
  shows "ks' = set_add_all ks xs \<and> list_all hashable xs"
  using assms by (auto simp add: set_update_def split: if_splits)

lemma slice100_strings:
  assumes "map_result slice100 kws = Inr out" and "list_all hashable kws"
  shows "\<exists>ks. kws = map JStr ks \<and> out = map (\<lambda>k. JStr (take 100 k)) ks"
  using assms
proof (induction kws arbitrary: out)
  case Nil
  then show ?case by simp
next
  case (Cons k kws)
  from Cons.prems obtain y ys where y: "slice100 k = Inr y" and ys: "map_result slice100 kws = Inr ys"
    and out: "out = y # ys"
    by (auto split: sum.splits)
  from Cons.prems(2) have hk: "hashable k" and hs: "list_all hashable kws" by simp_all
  from y hk obtain s where s: "k = JStr s" "y = JStr (take 100 s)"
    by (cases k) auto
  from Cons.IH[OF ys hs] obtain ks where ks: "kws = map JStr ks" "ys = map (\<lambda>k. JStr (take 100 k)) ks"
    by blast
  have "k # kws = map JStr (s # ks) \<and> out = map (\<lambda>k. JStr (take 100 k)) (s # ks)"
    using s ks out by simp
  then show ?case by (rule exI[of _ "s # ks"])
qed

lemma sta_keywords_union:
  assumes "sta_get_keywords_for_resource lib remote h ident = Inr kws"
    and "sta_parsed_service lib h = Inr c"
    and "getObservedPropertyNamesForDatastream remote c ident = Inr l1"
    and "getFeatureOfInterestNamesForDatastream remote c ident = Inr l2"
    and "getSensorNamesForDatastream remote c ident = Inr l3"
    and "getThingNamesForDatastream remote c ident = Inr l4"
  shows "distinct kws \<and> set kws = set l1 \<union> set l2 \<union> set l3 \<union> set l4 \<and> list_all hashable kws"
proof -
  from assms obtain k1 k2 k3 where
    u: "set_update [] l1 = Inr k1" "set_update k1 l2 = Inr k2" "set_update k2 l3 = Inr k3"
       "set_update k3 l4 = Inr kws"
    by (auto simp add: sta_get_keywords_for_resource_def andthen_eq_Inr)
  note r = u[THEN set_update_Inr]
  from r have kws: "kws = set_add_all (set_add_all (set_add_all (set_add_all [] l1) l2) l3) l4"
    by simp
  from r have h: "list_all hashable l1" "list_all hashable l2" "list_all hashable l3" "list_all hashable l4"
    by simp_all
  have "distinct kws" unfolding kws by (intro distinct_set_add_all) simp
  moreover have s: "set kws = set l1 \<union> set l2 \<union> set l3 \<union> set l4"
    unfolding kws by (simp add: set_set_add_all)
  moreover have "list_all hashable kws"
    using h s by (auto simp add: list_all_iff)
  ultimately show ?thesis by blast
qed

text \<open>
  C9. The keyword sets are united first, which removes the repetitions, and each member of
  the union is then cut to its first 100 characters: the stored list has one entry per
  member of the union, in some order, so that two members with the same first 100
  characters give two equal entries. SOS: observed properties, procedures and features of
  interest of the offering. STA: the names of the observed properties, features of
  interest, sensors and things of the datastream.
\<close>

theorem keywords_union_then_truncate:
  "(sos_get_indexed_dataset_fields collab h off = Inr f \<longrightarrow>
      (\<exists>ks. distinct ks \<and>
         set ks = set (observed_properties off) \<union> set (procedures off) \<union> set (features_of_interest off) \<and>
         rf_keywords f = map (\<lambda>k. JStr (take 100 k)) ks \<and>
         length (rf_keywords f) =
           card (set (observed_properties off) \<union> set (procedures off) \<union> set (features_of_interest off))))
   \<and>
   (sta_get_indexed_dataset_fields collab lib remote h dataset_meta = Inr f' \<and>
    getitem dataset_meta IOT_ID = Inr ident \<and>
    sta_parsed_service lib h = Inr c \<and>
    getObservedPropertyNamesForDatastream remote c ident = Inr l1 \<and>
    getFeatureOfInterestNamesForDatastream remote c ident = Inr l2 \<and>
    getSensorNamesForDatastream remote c ident = Inr l3 \<and>
    getThingNamesForDatastream remote c ident = Inr l4 \<longrightarrow>
      (\<exists>ks. distinct ks \<and>
         JStr ` set ks = set l1 \<union> set l2 \<union> set l3 \<union> set l4 \<and>
         rf_keywords f' = map (\<lambda>k. JStr (take 100 k)) ks \<and>
         length (rf_keywords f') = card (set l1 \<union> set l2 \<union> set l3 \<union> set l4)))"
proof (intro conjI impI)
  assume "sos_get_indexed_dataset_fields collab h off = Inr f"
  then have kw: "rf_keywords f = map (\<lambda>k. JStr (take 100 k)) (sos_get_keywords_for_resource off)"
    by (auto simp add: sos_get_indexed_dataset_fields_def Let_def split: option.splits if_splits)
  let ?ks = "sos_get_keywords_for_resource off"
  let ?U = "set (observed_properties off) \<union> set (procedures off) \<union> set (features_of_interest off)"
  from sos_keywords_union[of off] have d: "distinct ?ks" and s: "set ?ks = ?U" by simp_all
  from d have "length ?ks = card (set ?ks)" by (simp add: distinct_card)
  with s kw have "length (rf_keywords f) = card ?U" by simp
  with d s kw show "\<exists>ks. distinct ks \<and> set ks = ?U \<and>
         rf_keywords f = map (\<lambda>k. JStr (take 100 k)) ks \<and> length (rf_keywords f) = card ?U"
    by blast
next
  assume a: "sta_get_indexed_dataset_fields collab lib remote h dataset_meta = Inr f' \<and>
    getitem dataset_meta IOT_ID = Inr ident \<and>
    sta_parsed_service lib h = Inr c \<and>
    getObservedPropertyNamesForDatastream remote c ident = Inr l1 \<and>
    getFeatureOfInterestNamesForDatastream remote c ident = Inr l2 \<and>
    getSensorNamesForDatastream remote c ident = Inr l3 \<and>
    getThingNamesForDatastream remote c ident = Inr l4"
  let ?U = "set l1 \<union> set l2 \<union> set l3 \<union> set l4"
  from a obtain kws where k: "sta_get_keywords_for_resource lib remote h ident = Inr kws"
    and sl: "map_result slice100 kws = Inr (rf_keywords f')"
    by (auto simp add: sta_get_indexed_dataset_fields_def Let_def andthen_eq_Inr)
  from sta_keywords_union[OF k] a have d: "distinct kws" and s: "set kws = ?U" and hs: "list_all hashable kws"
    by simp_all
  from slice100_strings[OF sl hs] obtain ks where ks: "kws = map JStr ks"
    and out: "rf_keywords f' = map (\<lambda>k. JStr (take 100 k)) ks"
    by blast
  from d ks have dk: "distinct ks" by (simp add: distinct_map)
  from s ks have sk: "JStr ` set ks = ?U" by simp
  from d have "length kws = card (set kws)" by (simp add: distinct_card)
  with s ks out have "length (rf_keywords f') = card ?U" by simp
  with dk sk out show "\<exists>ks. distinct ks \<and> JStr ` set ks = ?U \<and>
         rf_keywords f' = map (\<lambda>k. JStr (take 100 k)) ks \<and> length (rf_keywords f') = card ?U"
    by blast
qed

theorem keywords_union_then_truncate_witness:
  "(\<exists>f. sos_get_indexed_dataset_fields example_collaborators example_sos_handler long_keywords_offering = Inr f \<and>
        length (rf_keywords f) = 3 \<and>
        set (rf_keywords f) = {JStr (replicate 100 CHR ''k''), JStr ''buoy''})
   \<and>
   (\<exists>f. sta_get_indexed_dataset_fields example_collaborators py_urllib example_sta_remote example_sta_handler
          (datastream ''1'' [(''observedArea'', JArr [JNum 1, JNum 2, JNum 3, JNum 4])]) = Inr f \<and>
        length (rf_keywords f) = 1)"
proof -
  let ?sos = "sos_get_indexed_dataset_fields example_collaborators example_sos_handler long_keywords_offering"
  let ?meta = "datastream ''1'' [(''observedArea'', JArr [JNum 1, JNum 2, JNum 3, JNum 4])]"
  let ?sta = "sta_get_indexed_dataset_fields example_collaborators py_urllib example_sta_remote example_sta_handler ?meta"
  let ?c = "\<lparr>client_url = ''http://sta/'', url_query_string = None\<rparr>"
  note t = keywords_union_then_truncate
  have f1: "?sos = Inr (projr ?sos)" by code_simp
  from t[THEN conjunct1, rule_format, OF f1]
  have "length (rf_keywords (projr ?sos)) =
          card (set (observed_properties long_keywords_offering) \<union> set (procedures long_keywords_offering)
                \<union> set (features_of_interest long_keywords_offering))"
    by blast
  also have "\<dots> = 3" by code_simp
  finally have n1: "length (rf_keywords (projr ?sos)) = 3" .
  have s1: "set (rf_keywords (projr ?sos)) = {JStr (replicate 100 CHR ''k''), JStr ''buoy''}"
    by code_simp
  have f2: "?sta = Inr (projr ?sta)" by code_simp
  have i: "getitem ?meta IOT_ID = Inr (JStr ''1'')" by code_simp
  have c: "sta_parsed_service py_urllib example_sta_handler = Inr ?c" by code_simp
  have q1: "getObservedPropertyNamesForDatastream example_sta_remote ?c (JStr ''1'') = Inr [JStr ''temperature'']"
    by code_simp
  have q2: "getFeatureOfInterestNamesForDatastream example_sta_remote ?c (JStr ''1'') = Inr [JStr ''temperature'']"
    by code_simp
  have q3: "getSensorNamesForDatastream example_sta_remote ?c (JStr ''1'') = Inr [JStr ''temperature'']"
    by code_simp
  have q4: "getThingNamesForDatastream example_sta_remote ?c (JStr ''1'') = Inr [JStr ''temperature'']"
    by code_simp
  from t[THEN conjunct2, rule_format, of example_collaborators py_urllib example_sta_remote example_sta_handler
          ?meta "projr ?sta" "JStr ''1''" ?c "[JStr ''temperature'']" "[JStr ''temperature'']"
          "[JStr ''temperature'']" "[JStr ''temperature'']"] f2 i c q1 q2 q3 q4
  have "length (rf_keywords (projr ?sta)) =
          card (set [JStr ''temperature''] \<union> set [JStr ''temperature''] \<union> set [JStr ''temperature'']
                \<union> set [JStr ''temperature''])"
    by blast
  then have n2: "length (rf_keywords (projr ?sta)) = 1" by simp
  from f1 n1 s1 have "\<exists>f. ?sos = Inr f \<and> length (rf_keywords f) = 3 \<and>
        set (rf_keywords f) = {JStr (replicate 100 CHR ''k''), JStr ''buoy''}"
    by blast
  moreover from f2 n2 have "\<exists>f. ?sta = Inr f \<and> length (rf_keywords f) = 1"
    by blast
  ultimately show ?thesis by blast
qed

section \<open>Cleaning the URL of an SOS service\<close>

text \<open>
  The dict of the parsed parameters has one entry per key, with the last value given for
  that key; the three \<open>pop\<close>s remove the keys \<open>version\<close>, \<open>service\<close> and \<open>request\<close>.
\<close>

lemma map_of_dict_set: "map_of (dict_set d k v) = (map_of d)(k \<mapsto> v)"
  by (induction d k v rule: dict_set.induct) (auto simp add: fun_eq_iff)

lemma keys_dict_set: "fst ` set (dict_set d k v) = insert k (fst ` set d)"
  by (induction d k v rule: dict_set.induct) auto

lemma distinct_dict_set: "distinct (map fst d) \<Longrightarrow> distinct (map fst (dict_set d k v))"
proof (induction d k v rule: dict_set.induct)
  case (1 k v)
  then show ?case by simp
next
  case (2 k' v' d k v)
  then show ?case by (auto simp add: keys_dict_set)
qed

lemma map_of_fold_dict_set:
  "map_of (fold (\<lambda>kv d. dict_set d (fst kv) (snd kv)) ps d) = map_of d ++ map_of (rev ps)"
proof (induction ps arbitrary: d)
  case Nil
  then show ?case by simp
next
  case (Cons p ps)
  show ?case
    by (cases p) (simp add: Cons.IH map_of_dict_set fun_eq_iff map_add_def split: option.splits)
qed

lemma distinct_fold_dict_set:
  "distinct (map fst d) \<Longrightarrow> distinct (map fst (fold (\<lambda>kv d. dict_set d (fst kv) (snd kv)) ps d))"
  by (induction ps arbitrary: d) (simp_all add: distinct_dict_set)

lemma map_of_py_dict: "map_of (py_dict ps) = map_of (rev ps)"
  by (simp add: py_dict_def map_of_fold_dict_set)

lemma distinct_py_dict: "distinct (map fst (py_dict ps))"
  by (simp add: py_dict_def distinct_fold_dict_set)

lemma map_of_filter_key:
  "map_of (filter (\<lambda>kv. P (fst kv)) d) k = (if P k then map_of d k else None)"
  by (induction d) auto

lemma dict_pop_thrice:
  "dict_pop (dict_pop (dict_pop d a) b) c = filter (\<lambda>kv. fst kv \<notin> {a, b, c}) d"
  by (induction d) (auto simp add: dict_pop_def)

lemma map_of_dict_pop: "map_of (dict_pop d a) k = (if k = a then None else map_of d k)"
  using map_of_filter_key[of "\<lambda>x. x \<noteq> a" d k] by (simp add: dict_pop_def)

lemma get_cleaned_url_params_result:
  assumes "urlparse lib (unquote lib u) = Inr parsed"
  shows "get_cleaned_url_params lib u =
           Inr (parsed\<lparr>query := urlencode lib
                          (filter (\<lambda>kv. fst kv \<notin> {''version'', ''service'', ''request''})
                             (py_dict (parse_qsl lib (query parsed))))\<rparr>,
                map_of (py_dict (parse_qsl lib (query parsed))) ''service'',
                (case map_of (py_dict (parse_qsl lib (query parsed))) ''version'' of
                   None \<Rightarrow> ''2.0.0'' | Some v \<Rightarrow> v),
                map_of (py_dict (parse_qsl lib (query parsed))) ''request'')"
  using assms
  by (simp add: get_cleaned_url_params_def Let_def dict_pop_thrice map_of_dict_pop)

text \<open>
  What a second cleaning does to a cleaned URL, with the functions of the model: \<open>unquote\<close>
  undoes the escapes that \<open>urlencode\<close> wrote into the query and leaves the rest of the URL as
  it is, \<open>urlparse\<close> finds the same components, and \<open>parse_qsl\<close> the same parameters.
\<close>

lemma hexval_digit: "k < 16 \<Longrightarrow> hexval (''0123456789ABCDEF'' ! k) = Some k"
proof -
  have "\<forall>k \<in> set [0..<16]. hexval (''0123456789ABCDEF'' ! k) = Some k"
    by code_simp
  then show "k < 16 \<Longrightarrow> hexval (''0123456789ABCDEF'' ! k) = Some k"
    by simp
qed

lemma of_char_less_256: "(of_char c :: nat) < 256"
proof -
  have "(of_char c :: nat) mod 256 = of_char c" by (rule of_char_mod_256)
  moreover have "(of_char c :: nat) mod 256 < 256" by simp
  ultimately show ?thesis by simp
qed

lemma unquote_percent_encode: "model_unquote (percent_encode c @ t) = c # model_unquote t"
proof -
  let ?n = "of_char c :: nat"
  have a: "?n div 16 < 16" using of_char_less_256[of c] by (simp add: div_less_iff_less_mult)
  have b: "?n mod 16 < 16" by simp
  have "char_of (16 * (?n div 16) + ?n mod 16) = c" by simp
  then show ?thesis
    by (simp add: percent_encode_def Let_def hexval_digit[OF a] hexval_digit[OF b])
qed

lemma percent_not_safe: "CHR ''%'' \<notin> set always_safe"
  by code_simp

lemma unquote_Cons_other: "c \<noteq> CHR ''%'' \<Longrightarrow> model_unquote (c # t) = c # model_unquote t"
  by simp

lemma unquote_quote_plus:
  "model_unquote (model_quote_plus s @ t) = space_to_plus s @ model_unquote t"
proof (induction s)
  case Nil
  then show ?case by (simp add: model_quote_plus_def space_to_plus_def)
next
  case (Cons c s)
  have step: "model_quote_plus (c # s) =
      (if c = CHR '' '' then ''+'' else if c \<in> set always_safe then [c] else percent_encode c) @ model_quote_plus s"
    by (simp add: model_quote_plus_def)
  show ?case
  proof (cases "c = CHR '' ''")
    case True
    show ?thesis unfolding step using True Cons.IH by (simp add: space_to_plus_def)
  next
    case False
    show ?thesis
    proof (cases "c \<in> set always_safe")
      case True
      with percent_not_safe have "c \<noteq> CHR ''%''" by auto
      then show ?thesis unfolding step using False True Cons.IH by (simp add: space_to_plus_def)
    next
      case unsafe: False
      from False unsafe have "model_quote_plus (c # s) @ t = percent_encode c @ (model_quote_plus s @ t)"
        by (simp add: step)
      then show ?thesis using False Cons.IH by (simp only: unquote_percent_encode) (simp add: space_to_plus_def)
    qed
  qed
qed

lemma fold_join: "fold (\<lambda>y acc. acc @ c # y) xs x = x @ concat (map (\<lambda>y. c # y) xs)"
  by (induction xs arbitrary: x) simp_all

lemma urlencode_Nil: "model_urlencode [] = []"
  by (simp add: model_urlencode_def)

lemma urlencode_Cons:
  "model_urlencode (kv # kvs) =
     model_quote_plus (fst kv) @ ''='' @ model_quote_plus (snd kv) @
     (if kvs = [] then [] else ''&'' @ model_urlencode kvs)"
  by (cases kvs) (simp_all add: model_urlencode_def fold_join)

lemma unquote_urlencode:
  "model_unquote (model_urlencode kept @ t) = plus_join kept @ model_unquote t"
proof (induction kept rule: plus_join.induct)
  case 1
  then show ?case by (simp add: urlencode_Nil)
next
  case (2 kv)
  have "model_unquote (model_quote_plus (fst kv) @ (''='' @ model_quote_plus (snd kv) @ t))
          = space_to_plus (fst kv) @ ''='' @ space_to_plus (snd kv) @ model_unquote t"
    by (simp only: unquote_quote_plus) (simp add: unquote_quote_plus)
  then show ?case by (simp add: urlencode_Cons)
next
  case (3 kv v va)
  have "model_unquote (model_quote_plus (fst kv) @ (''='' @ model_quote_plus (snd kv) @ (''&'' @ model_urlencode (v # va) @ t)))
          = space_to_plus (fst kv) @ ''='' @ space_to_plus (snd kv) @ ''&'' @ model_unquote (model_urlencode (v # va) @ t)"
    by (simp only: unquote_quote_plus) (simp add: unquote_quote_plus)
  then show ?case using "3.IH" by (simp add: urlencode_Cons[of kv "v # va"])
qed


lemma has_escape_tail: "has_escape s \<Longrightarrow> has_escape (c # s)"
  by (cases s rule: has_escape.cases) simp_all

lemma unquote_percent_end: "model_unquote [CHR ''%''] = [CHR ''%'']"
  by simp

lemma unquote_percent_one: "model_unquote [CHR ''%'', h] = CHR ''%'' # model_unquote [h]"
  by simp

lemma unquote_percent_no_hex:
  assumes "hexval h1 = None \<or> hexval h2 = None"
  shows "model_unquote (CHR ''%'' # h1 # h2 # r) = CHR ''%'' # model_unquote (h1 # h2 # r)"
proof -
  have "model_unquote (CHR ''%'' # h1 # h2 # r) =
          (case (hexval h1, hexval h2) of
             (Some a, Some b) \<Rightarrow> char_of (16 * a + b) # model_unquote r
           | _ \<Rightarrow> CHR ''%'' # model_unquote (h1 # h2 # r))"
    by (subst model_unquote.simps(2)) (simp only: refl if_True list.case)
  also have "\<dots> = CHR ''%'' # model_unquote (h1 # h2 # r)"
    using assms by (cases "hexval h1"; cases "hexval h2"; simp only: prod.case option.case; simp)
  finally show ?thesis .
qed


lemma unquote_no_escape:
  "\<not> has_escape a \<Longrightarrow> b = [] \<or> hexval (hd b) = None \<Longrightarrow> model_unquote (a @ b) = a @ model_unquote b"
proof (induction a)
  case Nil
  then show ?case by simp
next
  case (Cons c cs)
  from Cons.prems(1) have t: "\<not> has_escape cs" using has_escape_tail by blast
  note ih = Cons.IH[OF t Cons.prems(2)]
  show ?case
  proof (cases "c = CHR ''%''")
    case False
    then show ?thesis using ih by simp
  next
    case True
    have goal: "model_unquote (CHR ''%'' # (cs @ b)) = CHR ''%'' # model_unquote (cs @ b)"
    proof (cases "cs @ b")
      case Nil
      then show ?thesis by (simp only: unquote_percent_end model_unquote.simps(1))
    next
      case one: (Cons h1 r)
      show ?thesis
      proof (cases r)
        case Nil
        with one show ?thesis by (simp only: unquote_percent_one)
      next
        case two: (Cons h2 r2)
        have "hexval h1 = None \<or> hexval h2 = None"
        proof (cases cs)
          case Nil
          with one Cons.prems(2) show ?thesis by auto
        next
          case c1: (Cons x xs)
          show ?thesis
          proof (cases xs)
            case Nil
            with c1 one two Cons.prems(2) show ?thesis by auto
          next
            case (Cons y ys)
            with c1 one two True Cons.prems(1) show ?thesis by auto
          qed
        qed
        then show ?thesis unfolding one two by (rule unquote_percent_no_hex)
      qed
    qed
    show ?thesis using True goal ih by (simp only: append_Cons)
  qed
qed

lemma unquote_no_escape_all: "\<not> has_escape a \<Longrightarrow> model_unquote a = a"
  using unquote_no_escape[of a "[]"] by simp

lemma unquote_Nil_iff: "model_unquote s = [] \<longleftrightarrow> s = []"
proof (cases s)
  case Nil
  then show ?thesis by simp
next
  case (Cons c cs)
  have "model_unquote (c # cs) \<noteq> []"
    by (subst model_unquote.simps(2)) (simp split: list.split option.split)
  with Cons show ?thesis by simp
qed

lemma split_on_first_separator:
  "c \<notin> set a \<Longrightarrow> split_on c (a @ c # b) = a # split_on c b"
  by (induction a) auto

lemma set_space_to_plus:
  "x \<in> set (space_to_plus s) \<Longrightarrow> x \<in> set s \<or> x = CHR ''+''"
  by (auto simp add: space_to_plus_def split: if_splits)

lemma plus_to_space_inverse:
  "CHR ''+'' \<notin> set s \<Longrightarrow> map (\<lambda>c. if c = CHR ''+'' then CHR '' '' else c) (space_to_plus s) = s"
  by (induction s) (auto simp add: space_to_plus_def)

lemma space_to_plus_Nil_iff: "space_to_plus s = [] \<longleftrightarrow> s = []"
  by (simp add: space_to_plus_def)

lemma plain_param_chars:
  assumes "plain_param kv"
  shows "CHR ''&'' \<notin> set (fst kv)" "CHR ''+'' \<notin> set (fst kv)" "CHR ''#'' \<notin> set (fst kv)"
    "CHR ''='' \<notin> set (fst kv)" "model_unquote (fst kv) = fst kv"
    "CHR ''&'' \<notin> set (snd kv)" "CHR ''+'' \<notin> set (snd kv)" "CHR ''#'' \<notin> set (snd kv)"
    "model_unquote (snd kv) = snd kv"
proof -
  from assms have k: "\<not> has_escape (fst kv)" "list_all (\<lambda>c. c \<notin> set ''&+#='') (fst kv)"
    and v: "\<not> has_escape (snd kv)" "list_all (\<lambda>c. c \<notin> set ''&+#'') (snd kv)"
    unfolding plain_param_def plain_name_def plain_value_def by blast+
  from k(2) show "CHR ''&'' \<notin> set (fst kv)" "CHR ''+'' \<notin> set (fst kv)" "CHR ''#'' \<notin> set (fst kv)"
    "CHR ''='' \<notin> set (fst kv)"
    by (auto simp add: list_all_iff)
  from v(2) show "CHR ''&'' \<notin> set (snd kv)" "CHR ''+'' \<notin> set (snd kv)" "CHR ''#'' \<notin> set (snd kv)"
    by (auto simp add: list_all_iff)
  from k(1) show "model_unquote (fst kv) = fst kv" by (rule unquote_no_escape_all)
  from v(1) show "model_unquote (snd kv) = snd kv" by (rule unquote_no_escape_all)
qed

lemma piece_chars:
  assumes "plain_param kv"
  shows "CHR ''&'' \<notin> set (space_to_plus (fst kv) @ ''='' @ space_to_plus (snd kv))"
    and "CHR ''#'' \<notin> set (space_to_plus (fst kv) @ ''='' @ space_to_plus (snd kv))"
    and "CHR ''='' \<notin> set (space_to_plus (fst kv))"
  using plain_param_chars[OF assms] by (auto dest: set_space_to_plus)

lemma takeWhile_until: "c \<notin> set a \<Longrightarrow> takeWhile (\<lambda>x. x \<noteq> c) (a @ c # b) = a"
  by (induction a) auto

lemma dropWhile_until: "c \<notin> set a \<Longrightarrow> dropWhile (\<lambda>x. x \<noteq> c) (a @ c # b) = c # b"
  by (induction a) auto

lemma split_first_piece:
  assumes "c \<notin> set a"
  shows "split_first c (a @ c # b) = (a, Some b)"
  using assms by (simp add: split_first_def takeWhile_until dropWhile_until)

lemma split_first_none:
  assumes "c \<notin> set a"
  shows "split_first c a = (a, None)"
  using assms by (induction a) (auto simp add: split_first_def)

lemma parse_piece:
  assumes "plain_param kv" and ne: "snd kv \<noteq> []"
  shows "(case split_first CHR ''='' (space_to_plus (fst kv) @ ''='' @ space_to_plus (snd kv)) of
            (n, Some v) \<Rightarrow>
              if v \<noteq> [] then
                [(model_unquote (map (\<lambda>c. if c = CHR ''+'' then CHR '' '' else c) n),
                  model_unquote (map (\<lambda>c. if c = CHR ''+'' then CHR '' '' else c) v))]
              else []
          | (n, None) \<Rightarrow> []) = [kv]"
proof -
  note p = plain_param_chars[OF assms(1)]
  have "split_first CHR ''='' (space_to_plus (fst kv) @ CHR ''='' # space_to_plus (snd kv))
          = (space_to_plus (fst kv), Some (space_to_plus (snd kv)))"
    by (rule split_first_piece) (rule piece_chars(3)[OF assms(1)])
  then show ?thesis
    using p ne by (simp add: plus_to_space_inverse space_to_plus_Nil_iff)
qed

lemma parse_qsl_Nil: "model_parse_qsl [] = []"
  by (simp add: model_parse_qsl_def split_first_def)

lemma parse_qsl_plus_join:
  "list_all plain_param kept \<Longrightarrow> list_all (\<lambda>kv. snd kv \<noteq> []) kept \<Longrightarrow>
     model_parse_qsl (plus_join kept) = kept"
proof (induction kept rule: plus_join.induct)
  case 1
  then show ?case by (simp add: parse_qsl_Nil)
next
  case (2 kv)
  then have kv: "plain_param kv" and ne: "snd kv \<noteq> []" by simp_all
  have "split_on CHR ''&'' (space_to_plus (fst kv) @ ''='' @ space_to_plus (snd kv))
          = [space_to_plus (fst kv) @ ''='' @ space_to_plus (snd kv)]"
    by (rule split_on_no_separator) (rule piece_chars(1)[OF kv])
  then show ?case using parse_piece[OF kv ne] by (simp add: model_parse_qsl_def)
next
  case (3 kv v va)
  then have kv: "plain_param kv" and ne: "snd kv \<noteq> []" and rest: "list_all plain_param (v # va)"
    and rest_ne: "list_all (\<lambda>kv. snd kv \<noteq> []) (v # va)" by simp_all
  have "split_on CHR ''&'' ((space_to_plus (fst kv) @ ''='' @ space_to_plus (snd kv)) @ CHR ''&'' # plus_join (v # va))
          = (space_to_plus (fst kv) @ ''='' @ space_to_plus (snd kv)) # split_on CHR ''&'' (plus_join (v # va))"
    by (rule split_on_first_separator) (rule piece_chars(1)[OF kv])
  then have "model_parse_qsl (plus_join (kv # v # va)) = [kv] @ model_parse_qsl (plus_join (v # va))"
    using parse_piece[OF kv ne] by (simp add: model_parse_qsl_def)
  then show ?case using "3.IH"[OF rest rest_ne] by simp
qed

lemma hash_not_in_plus_join:
  "list_all plain_param kept \<Longrightarrow> CHR ''#'' \<notin> set (plus_join kept)"
proof (induction kept rule: plus_join.induct)
  case 1
  then show ?case by simp
next
  case (2 kv)
  then show ?case using piece_chars(2)[of kv] by simp
next
  case (3 kv v va)
  then show ?case using piece_chars(2)[of kv] by simp
qed

lemma plus_join_Nil_iff: "plus_join kept = [] \<longleftrightarrow> kept = []"
  by (induction kept rule: plus_join.induct) simp_all

lemma urlencode_Nil_iff: "model_urlencode kept = [] \<longleftrightarrow> kept = []"
  by (cases kept) (simp_all add: urlencode_Nil urlencode_Cons)

lemma unquote_no_percent: "CHR ''%'' \<notin> set a \<Longrightarrow> model_unquote (a @ b) = a @ model_unquote b"
  by (induction a) auto

lemma unquote_no_percent_all: "CHR ''%'' \<notin> set a \<Longrightarrow> model_unquote a = a"
  using unquote_no_percent[of a "[]"] by simp

lemma dict_set_new: "k \<notin> fst ` set d \<Longrightarrow> dict_set d k v = d @ [(k, v)]"
  by (induction d k v rule: dict_set.induct) auto

lemma fold_dict_set_distinct:
  "distinct (map fst (acc @ ps)) \<Longrightarrow> fold (\<lambda>kv d. dict_set d (fst kv) (snd kv)) ps acc = acc @ ps"
proof (induction ps arbitrary: acc)
  case Nil
  then show ?case by simp
next
  case (Cons p ps)
  from Cons.prems have new: "fst p \<notin> fst ` set acc" by auto
  from Cons.prems have "distinct (map fst ((acc @ [p]) @ ps))" by simp
  from Cons.IH[OF this] new show ?case by (simp add: dict_set_new)
qed

lemma py_dict_distinct: "distinct (map fst d) \<Longrightarrow> py_dict d = d"
  using fold_dict_set_distinct[of "[]" d] by (simp add: py_dict_def)

lemma takeWhile_stop:
  assumes "list_all P a" and "r = [] \<or> \<not> P (hd r)"
  shows "takeWhile P (a @ r) = a" and "dropWhile P (a @ r) = r"
proof -
  from assms(2) have "takeWhile P r = []" and "dropWhile P r = r"
    by (cases r; simp)+
  with assms(1) show "takeWhile P (a @ r) = a" and "dropWhile P (a @ r) = r"
    by (induction a) auto
qed

lemma split_first_optional:
  assumes "c \<notin> set a"
  shows "split_first c (a @ (if b = [] then [] else c # b)) = (a, if b = [] then None else Some b)"
  using assms by (simp add: split_first_piece split_first_none)

lemma scheme_facts:
  "sch = ''http'' \<or> sch = ''https'' \<Longrightarrow>
     sch \<noteq> [] \<and> CHR '':'' \<notin> set sch \<and> hd sch \<in> set (take 52 scheme_chars) \<and>
     list_all (\<lambda>c. c \<in> set scheme_chars) sch \<and> map lower_char sch = sch \<and>
     sch \<in> set uses_params \<and> sch \<in> set uses_netloc"
proof -
  have "\<forall>s \<in> set [''http'', ''https''].
          s \<noteq> [] \<and> CHR '':'' \<notin> set s \<and> hd s \<in> set (take 52 scheme_chars) \<and>
          list_all (\<lambda>c. c \<in> set scheme_chars) s \<and> map lower_char s = s \<and>
          s \<in> set uses_params \<and> s \<in> set uses_netloc"
    by code_simp
  then show "sch = ''http'' \<or> sch = ''https'' \<Longrightarrow> ?thesis" by auto
qed

lemma urlparse_http_url:
  assumes sch: "sch = ''http'' \<or> sch = ''https''"
    and host: "list_all (\<lambda>c. c \<notin> set ''/?#[]'') host"
    and pth: "pth = [] \<or> hd pth = CHR ''/''" "list_all (\<lambda>c. c \<notin> set ''?#;'') pth"
    and q: "CHR ''#'' \<notin> set q"
  shows "model_urlparse (http_url sch host pth q frag) =
           Inr \<lparr>scheme = sch, netloc = host, path = pth, params = [], query = q, fragment = frag\<rparr>"
proof -
  define qpart where "qpart = (if q = [] then [] else CHR ''?'' # q)"
  define fpart where "fpart = (if frag = [] then [] else CHR ''#'' # frag)"
  define r where "r = pth @ qpart @ fpart"
  note f = scheme_facts[OF sch]
  have u: "http_url sch host pth q frag = sch @ CHR '':'' # (''//'' @ host @ r)"
    by (simp add: http_url_def r_def qpart_def fpart_def)
  have s1: "split_first CHR '':'' (sch @ CHR '':'' # (''//'' @ host @ r)) = (sch, Some (''//'' @ host @ r))"
    using f by (simp add: split_first_piece)
  have stop: "r = [] \<or> \<not> (hd r \<noteq> CHR ''/'' \<and> hd r \<noteq> CHR ''?'' \<and> hd r \<noteq> CHR ''#'')"
    using pth(1) by (cases pth) (auto simp add: r_def qpart_def fpart_def)
  have hostP: "list_all (\<lambda>c. c \<noteq> CHR ''/'' \<and> c \<noteq> CHR ''?'' \<and> c \<noteq> CHR ''#'') host"
    using host by (auto simp add: list_all_iff)
  have nl: "takeWhile (\<lambda>c. c \<noteq> CHR ''/'' \<and> c \<noteq> CHR ''?'' \<and> c \<noteq> CHR ''#'') (host @ r) = host"
           "dropWhile (\<lambda>c. c \<noteq> CHR ''/'' \<and> c \<noteq> CHR ''?'' \<and> c \<noteq> CHR ''#'') (host @ r) = r"
    using takeWhile_stop[OF hostP stop] by simp_all
  have br: "CHR ''['' \<notin> set host" "CHR '']'' \<notin> set host"
    using host by (auto simp add: list_all_iff)
  have nohash: "CHR ''#'' \<notin> set (pth @ qpart)"
    using pth(2) q by (auto simp add: qpart_def list_all_iff)
  have fr: "split_first CHR ''#'' r = (pth @ qpart, if frag = [] then None else Some frag)"
    using split_first_optional[OF nohash, of frag] by (simp add: r_def fpart_def)
  have noq: "CHR ''?'' \<notin> set pth"
    using pth(2) by (auto simp add: list_all_iff)
  have qr: "split_first CHR ''?'' (pth @ qpart) = (pth, if q = [] then None else Some q)"
    using split_first_optional[OF noq, of q] by (simp add: qpart_def)
  have split: "model_urlsplit (http_url sch host pth q frag) = Inr (sch, host, pth, q, frag)"
    unfolding u model_urlsplit_def s1
    using f br by (simp add: nl fr qr)
  have nosemi: "CHR '';'' \<notin> set pth"
    using pth(2) by (auto simp add: list_all_iff)
  show ?thesis
    by (simp add: model_urlparse_def split nosemi)
qed

lemma urlunparse_http_url:
  assumes "sch = ''http'' \<or> sch = ''https''" and "host \<noteq> []" and "pth = [] \<or> hd pth = CHR ''/''"
  shows "model_urlunparse \<lparr>scheme = sch, netloc = host, path = pth, params = [], query = q, fragment = frag\<rparr>
           = http_url sch host pth q frag"
proof -
  from assms(1) have s: "sch \<noteq> []" by auto
  from assms(3) have "pth \<noteq> [] \<longrightarrow> take 1 pth = ''/''"
    by (cases pth) auto
  with s assms(2) show ?thesis
    by (auto simp add: model_urlunparse_def http_url_def Let_def)
qed

lemma py_urllib_fields:
  "unquote py_urllib = model_unquote" "urlparse py_urllib = model_urlparse"
  "urlunparse py_urllib = model_urlunparse" "parse_qsl py_urllib = model_parse_qsl"
  "urlencode py_urllib = model_urlencode" "quote py_urllib = model_quote"
  by (simp_all add: py_urllib_def)

lemma py_dict_subset: "(k, v) \<in> set (py_dict ps) \<Longrightarrow> (k, v) \<in> set ps"
proof -
  assume "(k, v) \<in> set (py_dict ps)"
  with distinct_py_dict[of ps] have "map_of (py_dict ps) k = Some v" by simp
  then have "map_of (rev ps) k = Some v" by (simp add: map_of_py_dict)
  then have "(k, v) \<in> set (rev ps)" by (rule map_of_SomeD)
  then show ?thesis by simp
qed

lemma parse_qsl_value_not_blank:
  assumes "(k, v) \<in> set (model_parse_qsl q)"
  shows "v \<noteq> []"
proof -
  define f where "f = (\<lambda>name_value.
        case split_first CHR ''='' name_value of
          (n, Some v) \<Rightarrow>
            if v \<noteq> [] then
              [(model_unquote (map (\<lambda>c. if c = CHR ''+'' then CHR '' '' else c) n),
                model_unquote (map (\<lambda>c. if c = CHR ''+'' then CHR '' '' else c) v))]
            else []
        | (n, None) \<Rightarrow> [])"
  have "model_parse_qsl q = concat (map f (split_on CHR ''&'' q))"
    by (simp only: model_parse_qsl_def f_def)
  with assms obtain piece where kv: "(k, v) \<in> set (f piece)" by auto
  obtain n w where sp: "split_first CHR ''='' piece = (n, w)" by (rule prod.exhaust)
  show ?thesis
  proof (cases w)
    case None
    with kv sp show ?thesis by (simp add: f_def)
  next
    case (Some x)
    with kv sp have "x \<noteq> []" and "v = model_unquote (map (\<lambda>c. if c = CHR ''+'' then CHR '' '' else c) x)"
      by (simp_all add: f_def split: if_splits)
    then show ?thesis by (simp only: unquote_Nil_iff) simp
  qed
qed

lemma last_segment_suffix:
  "take (length u - length (rev (takeWhile P (rev u)))) u @ rev (takeWhile P (rev u)) = u"
proof -
  have "rev (dropWhile P (rev u)) @ rev (takeWhile P (rev u)) = rev (takeWhile P (rev u) @ dropWhile P (rev u))"
    by (simp only: rev_append)
  also have "\<dots> = rev (rev u)" by (simp only: takeWhile_dropWhile_id)
  also have "\<dots> = u" by simp
  finally have u: "rev (dropWhile P (rev u)) @ rev (takeWhile P (rev u)) = u" .
  then have "length (rev (dropWhile P (rev u))) + length (rev (takeWhile P (rev u))) = length u"
    by (metis length_append)
  then have l: "length u - length (rev (takeWhile P (rev u))) = length (rev (dropWhile P (rev u)))"
    by linarith
  have "take (length (rev (dropWhile P (rev u)))) (rev (dropWhile P (rev u)) @ rev (takeWhile P (rev u)))
          = rev (dropWhile P (rev u))"
    by (rule append_eq_conv_conj[THEN iffD1, THEN conjunct1, symmetric]) (rule refl)
  then have "take (length u - length (rev (takeWhile P (rev u)))) u = rev (dropWhile P (rev u))"
    by (simp only: l u)
  then show ?thesis by (simp only: u)
qed

lemma splitparams_prefix: "\<exists>s. u = fst (splitparams u) @ s"
proof -
  define ls where "ls = rev (takeWhile (\<lambda>c. c \<noteq> CHR ''/'') (rev u))"
  define before where "before = take (length u - length ls) u"
  have u: "u = before @ ls"
    unfolding before_def ls_def by (rule last_segment_suffix[symmetric])
  have sp: "splitparams u =
        (case split_first CHR '';'' ls of (a, Some b) \<Rightarrow> (before @ a, b) | (a, None) \<Rightarrow> (u, []))"
    by (simp only: splitparams_def Let_def ls_def before_def)
  obtain a w where sf: "split_first CHR '';'' ls = (a, w)" by (rule prod.exhaust)
  then have a: "a = takeWhile (\<lambda>x. x \<noteq> CHR '';'') ls" by (simp add: split_first_def)
  show ?thesis
  proof (cases w)
    case None
    with sp sf have "fst (splitparams u) = u" by simp
    then have "u = fst (splitparams u) @ []" by simp
    then show ?thesis by (rule exI)
  next
    case (Some b)
    with sp sf have "fst (splitparams u) = before @ a" by simp
    moreover have "ls = a @ dropWhile (\<lambda>x. x \<noteq> CHR '';'') ls" by (simp add: a)
    ultimately have "u = fst (splitparams u) @ dropWhile (\<lambda>x. x \<noteq> CHR '';'') ls"
      using u by simp
    then show ?thesis by (rule exI)
  qed
qed

lemma before_separator:
  "fst (case split_first c s of (a, Some b) \<Rightarrow> (a, b) | (a, None) \<Rightarrow> (a, [])) = takeWhile (\<lambda>x. x \<noteq> c) s"
  by (simp add: split_first_def split: list.splits)

lemma path_after_netloc:
  assumes "r = [] \<or> hd r = CHR ''/'' \<or> hd r = CHR ''?'' \<or> hd r = CHR ''#''"
  shows "takeWhile (\<lambda>x. x \<noteq> CHR ''?'') (takeWhile (\<lambda>x. x \<noteq> CHR ''#'') r) = [] \<or>
         hd (takeWhile (\<lambda>x. x \<noteq> CHR ''?'') (takeWhile (\<lambda>x. x \<noteq> CHR ''#'') r)) = CHR ''/''"
  using assms by (cases r) auto

lemma path_chars:
  "CHR ''?'' \<notin> set (takeWhile (\<lambda>x. x \<noteq> CHR ''?'') (takeWhile (\<lambda>x. x \<noteq> CHR ''#'') r))"
  "CHR ''#'' \<notin> set (takeWhile (\<lambda>x. x \<noteq> CHR ''?'') (takeWhile (\<lambda>x. x \<noteq> CHR ''#'') r))"
  by (auto dest!: set_takeWhileD)

lemma urlsplit_parts:
  assumes "model_urlsplit u = Inr (sch, nl, p, qry, frag)"
  shows "list_all (\<lambda>c. c \<notin> set ''/?#'') nl"
    and "nl \<noteq> [] \<longrightarrow> p = [] \<or> hd p = CHR ''/''"
    and "CHR ''?'' \<notin> set p" and "CHR ''#'' \<notin> set p"
proof -
  obtain sch0 u1 where s: "(case split_first CHR '':'' u of
               (pre, Some rest) \<Rightarrow>
                 if pre \<noteq> [] \<and> hd pre \<in> set (take 52 scheme_chars) \<and> list_all (\<lambda>c. c \<in> set scheme_chars) pre
                 then (map lower_char pre, rest) else ([], u)
             | (pre, None) \<Rightarrow> ([], u)) = (sch0, u1)"
    by (rule prod.exhaust)
  obtain nl0 u2 where n: "(if take 2 u1 = ''//''
             then (takeWhile (\<lambda>c. c \<notin> set ''/?#'') (drop 2 u1), dropWhile (\<lambda>c. c \<notin> set ''/?#'') (drop 2 u1))
             else ([], u1)) = (nl0, u2)"
    by (rule prod.exhaust)
  obtain u3 f0 where a: "(case split_first CHR ''#'' u2 of (a, Some b) \<Rightarrow> (a, b) | (a, None) \<Rightarrow> (a, [])) = (u3, f0)"
    by (rule prod.exhaust)
  obtain u4 q0 where b: "(case split_first CHR ''?'' u3 of (a, Some b) \<Rightarrow> (a, b) | (a, None) \<Rightarrow> (a, [])) = (u4, q0)"
    by (rule prod.exhaust)
  have "model_urlsplit u =
      (if (CHR ''['' \<in> set nl0 \<and> CHR '']'' \<notin> set nl0) \<or> (CHR '']'' \<in> set nl0 \<and> CHR ''['' \<notin> set nl0)
       then Inl ValueError else Inr (sch0, nl0, u4, q0, f0))"
    by (simp only: model_urlsplit_def s n a b Let_def prod.case)
  with assms have nl: "nl = nl0" and p: "p = u4"
    by (simp_all split: if_splits)
  define P where "P = (\<lambda>c. c \<notin> set ''/?#'')"
  from n have nl0: "nl0 = (if take 2 u1 = ''//'' then takeWhile P (drop 2 u1) else [])"
    and u2: "u2 = (if take 2 u1 = ''//'' then dropWhile P (drop 2 u1) else u1)"
    unfolding P_def by (simp_all split: if_splits)
  from a have "u3 = fst (case split_first CHR ''#'' u2 of (a, Some b) \<Rightarrow> (a, b) | (a, None) \<Rightarrow> (a, []))"
    by simp
  then have u3: "u3 = takeWhile (\<lambda>x. x \<noteq> CHR ''#'') u2" by (simp only: before_separator)
  from b have "u4 = fst (case split_first CHR ''?'' u3 of (a, Some b) \<Rightarrow> (a, b) | (a, None) \<Rightarrow> (a, []))"
    by simp
  then have p0: "p = takeWhile (\<lambda>x. x \<noteq> CHR ''?'') (takeWhile (\<lambda>x. x \<noteq> CHR ''#'') u2)"
    by (simp only: before_separator u3 p)
  have "list_all P nl"
    by (auto simp add: nl nl0 list_all_iff dest: set_takeWhileD)
  then show "list_all (\<lambda>c. c \<notin> set ''/?#'') nl" by (simp only: P_def)
  show "nl \<noteq> [] \<longrightarrow> p = [] \<or> hd p = CHR ''/''"
  proof
    assume "nl \<noteq> []"
    then have "u2 = dropWhile P (drop 2 u1)"
      by (simp add: nl nl0 u2 split: if_splits)
    then have "u2 = [] \<or> \<not> P (hd u2)"
      using hd_dropWhile[of P "drop 2 u1"] by auto
    then have "u2 = [] \<or> hd u2 = CHR ''/'' \<or> hd u2 = CHR ''?'' \<or> hd u2 = CHR ''#''"
      by (auto simp add: P_def)
    from path_after_netloc[OF this] show "p = [] \<or> hd p = CHR ''/''"
      by (simp only: p0)
  qed
  show "CHR ''?'' \<notin> set p" "CHR ''#'' \<notin> set p"
    unfolding p0 by (rule path_chars)+
qed

lemma urlparse_parts:
  assumes "model_urlparse u = Inr r"
  shows "list_all (\<lambda>c. c \<notin> set ''/?#'') (netloc r)"
    and "netloc r \<noteq> [] \<longrightarrow> path r = [] \<or> hd (path r) = CHR ''/''"
    and "CHR ''?'' \<notin> set (path r)" and "CHR ''#'' \<notin> set (path r)"
proof -
  from assms obtain t where t: "model_urlsplit u = Inr t"
    by (cases "model_urlsplit u") (simp_all add: model_urlparse_def)
  obtain sch nl p qry frag where tt: "t = (sch, nl, p, qry, frag)" by (cases t) auto
  note sp = t[unfolded tt]
  define c where "c = (if sch \<in> set uses_params \<and> CHR '';'' \<in> set p then splitparams p else (p, []))"
  from assms have "r = \<lparr>scheme = sch, netloc = nl, path = fst c, params = snd c, query = qry, fragment = frag\<rparr>"
    by (auto simp add: model_urlparse_def sp c_def Let_def split: prod.splits)
  then have r: "netloc r = nl" "path r = fst c" by simp_all
  have "\<exists>s. p = fst c @ s"
  proof (cases "sch \<in> set uses_params \<and> CHR '';'' \<in> set p")
    case True
    then have "c = splitparams p" by (simp add: c_def)
    then show ?thesis using splitparams_prefix[of p] by simp
  next
    case False
    then have "c = (p, [])" by (auto simp add: c_def)
    then have "p = fst c @ []" by simp
    then show ?thesis by (rule exI)
  qed
  then obtain s where pre: "p = fst c @ s" by blast
  note parts = urlsplit_parts[OF sp]
  show "list_all (\<lambda>c. c \<notin> set ''/?#'') (netloc r)" using parts(1) by (simp only: r)
  show "netloc r \<noteq> [] \<longrightarrow> path r = [] \<or> hd (path r) = CHR ''/''"
  proof
    assume "netloc r \<noteq> []"
    with parts(2) r have "p = [] \<or> hd p = CHR ''/''" by simp
    with pre show "path r = [] \<or> hd (path r) = CHR ''/''"
      unfolding r by (cases "fst c") auto
  qed
  from parts(3) pre show "CHR ''?'' \<notin> set (path r)" unfolding r by (metis Un_iff set_append)
  from parts(4) pre show "CHR ''#'' \<notin> set (path r)" unfolding r by (metis Un_iff set_append)
qed

lemma delimiters_no_hex:
  "hexval CHR ''/'' = None" "hexval CHR ''?'' = None" "hexval CHR ''#'' = None"
  by code_simp+

lemma unquote_http_url_encoded:
  assumes sch: "sch = ''http'' \<or> sch = ''https''"
    and esc: "\<not> has_escape host" "\<not> has_escape pth" "\<not> has_escape frag"
    and pth: "pth = [] \<or> hd pth = CHR ''/''"
  shows "model_unquote (http_url sch host pth (model_urlencode kept) frag)
           = http_url sch host pth (plus_join kept) frag"
proof -
  define fpart where "fpart = (if frag = [] then [] else CHR ''#'' # frag)"
  define qpart where "qpart = (if model_urlencode kept = [] then [] else CHR ''?'' # model_urlencode kept)"
  define qplain where "qplain = (if plus_join kept = [] then [] else CHR ''?'' # plus_join kept)"
  have base: "CHR ''%'' \<notin> set (sch @ ''://'')"
    using sch by auto
  have fp: "model_unquote fpart = fpart"
    using esc(3) by (simp add: fpart_def unquote_no_escape_all)
  have rest: "model_unquote (qpart @ fpart) = qplain @ fpart"
  proof (cases "kept = []")
    case True
    then show ?thesis by (simp add: qpart_def qplain_def urlencode_Nil fp)
  next
    case False
    then have "model_urlencode kept \<noteq> []" "plus_join kept \<noteq> []"
      by (simp_all add: urlencode_Nil_iff plus_join_Nil_iff)
    then show ?thesis by (simp add: qpart_def qplain_def unquote_urlencode fp)
  qed
  have q_hd: "qpart @ fpart = [] \<or> hexval (hd (qpart @ fpart)) = None"
    by (auto simp add: qpart_def fpart_def delimiters_no_hex)
  have p_hd: "pth @ qpart @ fpart = [] \<or> hexval (hd (pth @ qpart @ fpart)) = None"
    using pth q_hd by (cases pth) (auto simp add: delimiters_no_hex)
  have "model_unquote ((sch @ ''://'') @ host @ pth @ qpart @ fpart)
          = (sch @ ''://'') @ model_unquote (host @ pth @ qpart @ fpart)"
    by (rule unquote_no_percent[OF base])
  also have "model_unquote (host @ pth @ qpart @ fpart) = host @ model_unquote (pth @ qpart @ fpart)"
    by (rule unquote_no_escape[OF esc(1) p_hd])
  also have "model_unquote (pth @ qpart @ fpart) = pth @ model_unquote (qpart @ fpart)"
    by (rule unquote_no_escape[OF esc(2) q_hd])
  finally have fin: "model_unquote ((sch @ ''://'') @ host @ pth @ qpart @ fpart)
                  = (sch @ ''://'') @ host @ pth @ qplain @ fpart"
    by (simp only: rest)
  have e1: "http_url sch host pth (model_urlencode kept) frag = (sch @ ''://'') @ host @ pth @ qpart @ fpart"
    by (simp add: http_url_def fpart_def qpart_def)
  have e2: "http_url sch host pth (plus_join kept) frag = (sch @ ''://'') @ host @ pth @ qplain @ fpart"
    by (simp add: http_url_def fpart_def qplain_def)
  show ?thesis unfolding e1 e2 by (rule fin)
qed

lemma cleaning_stable_on_model:
  assumes sch: "sch = ''http'' \<or> sch = ''https''"
    and host: "host \<noteq> []" "list_all (\<lambda>c. c \<notin> set ''/?#[]'') host" "\<not> has_escape host"
    and pth: "pth = [] \<or> hd pth = CHR ''/''" "list_all (\<lambda>c. c \<notin> set ''?#;'') pth" "\<not> has_escape pth"
    and frag: "\<not> has_escape frag"
    and kept: "distinct (map fst kept)" "list_all plain_param kept"
      "list_all (\<lambda>kv. snd kv \<noteq> []) kept"
      "list_all (\<lambda>kv. fst kv \<notin> {''version'', ''service'', ''request''}) kept"
  shows "get_cleaned_url_params py_urllib (http_url sch host pth (model_urlencode kept) frag)
           = Inr (\<lparr>scheme = sch, netloc = host, path = pth, params = [],
                   query = model_urlencode kept, fragment = frag\<rparr>, None, ''2.0.0'', None)"
proof -
  let ?c = "http_url sch host pth (model_urlencode kept) frag"
  let ?p = "\<lparr>scheme = sch, netloc = host, path = pth, params = [], query = plus_join kept, fragment = frag\<rparr>"
  have u: "model_unquote ?c = http_url sch host pth (plus_join kept) frag"
    by (rule unquote_http_url_encoded[OF sch host(3) pth(3) frag pth(1)])
  have "model_urlparse (http_url sch host pth (plus_join kept) frag) = Inr ?p"
    by (rule urlparse_http_url[OF sch host(2) pth(1) pth(2) hash_not_in_plus_join[OF kept(2)]])
  with u have p: "urlparse py_urllib (unquote py_urllib ?c) = Inr ?p"
    by (simp add: py_urllib_fields)
  have d: "py_dict (parse_qsl py_urllib (query ?p)) = kept"
    by (simp add: py_urllib_fields parse_qsl_plus_join[OF kept(2) kept(3)] py_dict_distinct[OF kept(1)])
  have f: "filter (\<lambda>kv. fst kv \<notin> {''version'', ''service'', ''request''}) kept = kept"
    using kept(4) by (simp add: list_all_iff)
  have m: "map_of kept ''version'' = None" "map_of kept ''service'' = None" "map_of kept ''request'' = None"
    using kept(4) by (auto simp add: list_all_iff map_of_eq_None_iff)
  from get_cleaned_url_params_result[OF p] show ?thesis
    by (simp only: d f m) (simp add: py_urllib_fields)
qed

lemma kept_of_parse_qsl:
  assumes "kept = filter (\<lambda>kv. fst kv \<notin> {''version'', ''service'', ''request''}) (py_dict (model_parse_qsl q))"
  shows "distinct (map fst kept)" and "list_all (\<lambda>kv. snd kv \<noteq> []) kept"
    and "list_all (\<lambda>kv. fst kv \<notin> {''version'', ''service'', ''request''}) kept"
proof -
  show "distinct (map fst kept)"
    unfolding assms using distinct_py_dict[of "model_parse_qsl q"] by (rule distinct_map_filter)
  show "list_all (\<lambda>kv. snd kv \<noteq> []) kept"
    unfolding assms list_all_iff
  proof
    fix kv
    assume "kv \<in> set (filter (\<lambda>kv. fst kv \<notin> {''version'', ''service'', ''request''}) (py_dict (model_parse_qsl q)))"
    then have "(fst kv, snd kv) \<in> set (py_dict (model_parse_qsl q))" by simp
    then have "(fst kv, snd kv) \<in> set (model_parse_qsl q)" by (rule py_dict_subset)
    then show "snd kv \<noteq> []" by (rule parse_qsl_value_not_blank)
  qed
  show "list_all (\<lambda>kv. fst kv \<notin> {''version'', ''service'', ''request''}) kept"
    unfolding assms by (simp add: list_all_iff)
qed

lemma cleaned_url_is_fixed_point:
  assumes parse: "model_urlparse x = Inr parsed"
    and kept: "kept = filter (\<lambda>kv. fst kv \<notin> {''version'', ''service'', ''request''})
                        (py_dict (model_parse_qsl (query parsed)))"
    and new: "new_url = parsed\<lparr>query := model_urlencode kept\<rparr>"
    and comp: "plain_components new_url" and plain: "list_all plain_param kept"
  shows "get_cleaned_url_params py_urllib (model_urlunparse new_url) = Inr (new_url, None, ''2.0.0'', None)"
proof -
  define sch host pth frag where "sch = scheme parsed" and "host = netloc parsed"
    and "pth = path parsed" and "frag = fragment parsed"
  from comp new have c: "sch = ''http'' \<or> sch = ''https''" "host \<noteq> []"
    "CHR ''['' \<notin> set host" "CHR '']'' \<notin> set host" "\<not> has_escape host" "\<not> has_escape pth"
    "CHR '';'' \<notin> set pth" "params parsed = []" "\<not> has_escape frag"
    by (simp_all add: plain_components_def sch_def host_def pth_def frag_def)
  have n: "new_url = \<lparr>scheme = sch, netloc = host, path = pth, params = [],
                        query = model_urlencode kept, fragment = frag\<rparr>"
    using new c(8) by (cases parsed) (simp add: sch_def host_def pth_def frag_def)
  note parts = urlparse_parts[OF parse, folded host_def pth_def]
  from parts(2) c(2) have p1: "pth = [] \<or> hd pth = CHR ''/''" by simp
  have h: "list_all (\<lambda>c. c \<notin> set ''/?#[]'') host"
    using parts(1) c(3,4) by (auto simp add: list_all_iff)
  have p2: "list_all (\<lambda>c. c \<notin> set ''?#;'') pth"
    using parts(3,4) c(7) by (auto simp add: list_all_iff)
  note k = kept_of_parse_qsl[OF kept]
  have "model_urlunparse new_url = http_url sch host pth (model_urlencode kept) frag"
    unfolding n by (rule urlunparse_http_url[OF c(1) c(2) p1])
  then show ?thesis
    unfolding n
    using cleaning_stable_on_model[OF c(1) c(2) h c(5) p1 p2 c(6) c(9) k(1) plain k(2) k(3)]
    by simp
qed

text \<open>
  C8, as amended. For a URL that \<open>urlparse\<close> accepts once unquoted, cleaning returns the
  parsed URL with its query replaced by the encoding of the parameters other than
  \<open>version\<close>, \<open>service\<close> and \<open>request\<close> (one entry per key, the last value given for
  it), together with the values of these three, \<open>version\<close> being 2.0.0 when absent.
  With the functions of \<open>urllib.parse\<close>, cleaning the cleaned URL once more gives the same
  URL, and no parameter to report, whenever the cleaned URL is an http or https URL of
  printable ASCII characters with a netloc without brackets and a path without \<open>;\<close>, no
  percent escape is left in its netloc, path and fragment, and the remaining names and values
  hold no percent escape and none of \<open>&\<close>, \<open>+\<close> and \<open>#\<close> (the names no \<open>=\<close> either). The
  escapes that \<open>urlencode\<close> writes into the new query do not matter.
\<close>

theorem get_cleaned_url_params_stable:
  assumes "urlparse lib (unquote lib u) = Inr parsed"
    and "d = py_dict (parse_qsl lib (query parsed))"
    and "kept = filter (\<lambda>kv. fst kv \<notin> {''version'', ''service'', ''request''}) d"
    and "new_url = parsed\<lparr>query := urlencode lib kept\<rparr>"
  shows "get_cleaned_url_params lib u =
           Inr (new_url, map_of d ''service'',
                (case map_of d ''version'' of None \<Rightarrow> ''2.0.0'' | Some v \<Rightarrow> v),
                map_of d ''request'')
         \<and> map_of d = map_of (rev (parse_qsl lib (query parsed)))
         \<and> distinct (map fst kept)
         \<and> map_of kept = (\<lambda>k. if k \<in> {''version'', ''service'', ''request''} then None else map_of d k)
         \<and> (lib = py_urllib \<and> plain_components new_url \<and> list_all plain_param kept \<longrightarrow>
              get_cleaned_url_params lib (urlunparse lib new_url) = Inr (new_url, None, ''2.0.0'', None))"
proof (intro conjI impI)
  show "get_cleaned_url_params lib u =
           Inr (new_url, map_of d ''service'',
                (case map_of d ''version'' of None \<Rightarrow> ''2.0.0'' | Some v \<Rightarrow> v),
                map_of d ''request'')"
    using get_cleaned_url_params_result[OF assms(1)] assms(2-4) by simp
  show "map_of d = map_of (rev (parse_qsl lib (query parsed)))"
    using assms(2) by (simp add: map_of_py_dict)
  show "distinct (map fst kept)"
    using assms(2,3) distinct_py_dict[of "parse_qsl lib (query parsed)"]
    by (simp add: distinct_map_filter)
  show "map_of kept = (\<lambda>k. if k \<in> {''version'', ''service'', ''request''} then None else map_of d k)"
    using assms(3) map_of_filter_key[of "\<lambda>k. k \<notin> {''version'', ''service'', ''request''}" d]
    by (auto simp add: fun_eq_iff)
  assume a: "lib = py_urllib \<and> plain_components new_url \<and> list_all plain_param kept"
  then have lib: "lib = py_urllib" and comp: "plain_components new_url"
    and plain: "list_all plain_param kept" by simp_all
  have p: "model_urlparse (model_unquote u) = Inr parsed"
    using assms(1) by (simp add: lib py_urllib_fields)
  have k: "kept = filter (\<lambda>kv. fst kv \<notin> {''version'', ''service'', ''request''})
                     (py_dict (model_parse_qsl (query parsed)))"
    using assms(2,3) by (simp add: lib py_urllib_fields)
  have n: "new_url = parsed\<lparr>query := model_urlencode kept\<rparr>"
    using assms(4) by (simp add: lib py_urllib_fields)
  from cleaned_url_is_fixed_point[OF p k n comp plain]
  show "get_cleaned_url_params lib (urlunparse lib new_url) = Inr (new_url, None, ''2.0.0'', None)"
    by (simp add: lib py_urllib_fields)
qed

theorem get_cleaned_url_params_stable_witness:
  "get_cleaned_url_params py_urllib
       ''http://host/cgi-bin/mapserv?map=/data/sos.map&service=SOS&version=1.0.0&a=1&request=GetCapabilities&a=x+y''
     = Inr (\<lparr>scheme = ''http'', netloc = ''host'', path = ''/cgi-bin/mapserv'', params = [],
              query = ''map=%2Fdata%2Fsos.map&a=x+y'', fragment = []\<rparr>,
            Some ''SOS'', ''1.0.0'', Some ''GetCapabilities'')
   \<and> urlunparse py_urllib
        \<lparr>scheme = ''http'', netloc = ''host'', path = ''/cgi-bin/mapserv'', params = [],
          query = ''map=%2Fdata%2Fsos.map&a=x+y'', fragment = []\<rparr>
     = ''http://host/cgi-bin/mapserv?map=%2Fdata%2Fsos.map&a=x+y''
   \<and> get_cleaned_url_params py_urllib ''http://host/cgi-bin/mapserv?map=%2Fdata%2Fsos.map&a=x+y''
     = Inr (\<lparr>scheme = ''http'', netloc = ''host'', path = ''/cgi-bin/mapserv'', params = [],
              query = ''map=%2Fdata%2Fsos.map&a=x+y'', fragment = []\<rparr>,
            None, ''2.0.0'', None)"
proof -
  let ?u = "''http://host/cgi-bin/mapserv?map=/data/sos.map&service=SOS&version=1.0.0&a=1&request=GetCapabilities&a=x+y''"
  let ?parsed = "\<lparr>scheme = ''http'', netloc = ''host'', path = ''/cgi-bin/mapserv'', params = [],
                  query = ''map=/data/sos.map&service=SOS&version=1.0.0&a=1&request=GetCapabilities&a=x+y'',
                  fragment = []\<rparr>"
  let ?d = "[(''map'', ''/data/sos.map''), (''service'', ''SOS''), (''version'', ''1.0.0''), (''a'', ''x y''),
             (''request'', ''GetCapabilities'')]"
  let ?kept = "[(''map'', ''/data/sos.map''), (''a'', ''x y'')]"
  let ?new = "\<lparr>scheme = ''http'', netloc = ''host'', path = ''/cgi-bin/mapserv'', params = [],
               query = ''map=%2Fdata%2Fsos.map&a=x+y'', fragment = []\<rparr>"
  have 1: "urlparse py_urllib (unquote py_urllib ?u) = Inr ?parsed" by code_simp
  have 2: "?d = py_dict (parse_qsl py_urllib (query ?parsed))" by code_simp
  have 3: "?kept = filter (\<lambda>kv. fst kv \<notin> {''version'', ''service'', ''request''}) ?d" by code_simp
  have 4: "?new = ?parsed\<lparr>query := urlencode py_urllib ?kept\<rparr>" by code_simp
  have 5: "urlunparse py_urllib ?new = ''http://host/cgi-bin/mapserv?map=%2Fdata%2Fsos.map&a=x+y''" by code_simp
  have 6: "plain_components ?new" by code_simp
  have 7: "list_all plain_param ?kept" by code_simp
  note t = get_cleaned_url_params_stable[OF 1 2 3 4]
  from t have a: "get_cleaned_url_params py_urllib ?u = Inr (?new, Some ''SOS'', ''1.0.0'', Some ''GetCapabilities'')"
    by simp
  from t 6 7 have "get_cleaned_url_params py_urllib (urlunparse py_urllib ?new) = Inr (?new, None, ''2.0.0'', None)"
    by blast
  then have b: "get_cleaned_url_params py_urllib ''http://host/cgi-bin/mapserv?map=%2Fdata%2Fsos.map&a=x+y''
                  = Inr (?new, None, ''2.0.0'', None)"
    by (simp only: 5)
  from a 5 b show ?thesis by blast
qed

text \<open>
  C8 as stated fails where it says that cleaning an already cleaned URL always yields the
  identical URL: the value \<open>x%2526y\<close> is cleaned to \<open>x%26y\<close>, and cleaning the result
  unquotes it to \<open>x&y\<close> before the query is split, which leaves \<open>a=x\<close>.
\<close>

theorem get_cleaned_url_params_not_idempotent:
  "get_cleaned_url_params py_urllib ''http://h/p?a=x%2526y''
     = Inr (\<lparr>scheme = ''http'', netloc = ''h'', path = ''/p'', params = [], query = ''a=x%26y'', fragment = []\<rparr>,
            None, ''2.0.0'', None)
   \<and> urlunparse py_urllib
        \<lparr>scheme = ''http'', netloc = ''h'', path = ''/p'', params = [], query = ''a=x%26y'', fragment = []\<rparr>
     = ''http://h/p?a=x%26y''
   \<and> get_cleaned_url_params py_urllib ''http://h/p?a=x%26y''
     = Inr (\<lparr>scheme = ''http'', netloc = ''h'', path = ''/p'', params = [], query = ''a=x'', fragment = []\<rparr>,
            None, ''2.0.0'', None)
   \<and> urlunparse py_urllib
        \<lparr>scheme = ''http'', netloc = ''h'', path = ''/p'', params = [], query = ''a=x'', fragment = []\<rparr>
     = ''http://h/p?a=x''"
  by code_simp

end
